theory Spec2Isabelle
  imports Complex_Main "HOL-Library.AList"
begin

section \<open>Values shared by the two tree engines\<close>

text \<open>
  The repository holds two implementations of the split tree that are under verification here:
  \<^item> \<open>SplitTreeModel\<close> (\<open>src/models/SplitTreeModel.cpp\<close>), a \<open>QAbstractItemModel\<close> over
    \<open>TreeNode\<close> structs owned through \<open>std::unique_ptr\<close>, with a raw \<open>parent\<close> pointer;
  \<^item> \<open>DockingManager\<close> (\<open>src/models/DockingManager.cpp\<close>), a \<open>QObject\<close> over \<open>PanelNode\<close>
    and \<open>ContainerNode\<close> objects, with the registry \<open>m_panels\<close> and Qt's object parent.

  Functions of \<open>SplitTreeModel\<close> carry the prefix \<open>stm_\<close>, functions of \<open>DockingManager\<close>
  the prefix \<open>dm_\<close>. A C++ \<open>double\<close> is a \<open>real\<close> (no NaN, no rounding), a \<open>QString\<close> is a
  \<open>string\<close>, and the address of an object is a natural number: a pointer is the address it
  holds, \<open>nullptr\<close> is \<open>None\<close>.
\<close>

type_synonym addr = nat

datatype Orientation = Horizontal | Vertical

text \<open>Qt's \<open>qBound(min, val, max)\<close> and \<open>qFuzzyCompare(double, double)\<close> of \<open>QtGlobal\<close>.\<close>

definition qBound :: "real \<Rightarrow> real \<Rightarrow> real \<Rightarrow> real" where
  "qBound lo v hi = max lo (min hi v)"

definition qFuzzyCompare :: "real \<Rightarrow> real \<Rightarrow> bool" where
  "qFuzzyCompare p1 p2 = (\<bar>p1 - p2\<bar> * 1000000000000 \<le> min \<bar>p1\<bar> \<bar>p2\<bar>)"

subsection \<open>SplitPanelNodeHelpers (SplitPanelNode.hpp)\<close>

definition clampValue :: "real \<Rightarrow> real \<Rightarrow> real \<Rightarrow> real" where
  "clampValue v lo hi = qBound lo v hi"

definition validateSplitRatio :: "real \<Rightarrow> real" where
  "validateSplitRatio ratio = clampValue ratio 0.1 0.9"

definition validateMinSize :: "real \<Rightarrow> real" where
  "validateMinSize sz = clampValue sz 50 1000"

text \<open>
  \<open>safeSetValue(double& current, double newValue)\<close> leaves \<open>current\<close> alone when the two
  are fuzzily equal and stores \<open>newValue\<close> otherwise; the model returns the content of
  \<open>current\<close> after the call. The generic overload compares with \<open>==\<close>, so the stored value
  is \<open>newValue\<close> in both of its branches.
\<close>

definition safeSetValue :: "real \<Rightarrow> real \<Rightarrow> real" where
  "safeSetValue current newValue = (if qFuzzyCompare current newValue then current else newValue)"

subsection \<open>QVariant and QVariantMap\<close>

datatype QVariant =
    Invalid
  | VBool bool
  | VDouble real
  | VString string
  | VList "QVariant list"
  | VMap "(string \<times> QVariant) list"

type_synonym QVariantMap = "(string \<times> QVariant) list"

definition contains :: "QVariantMap \<Rightarrow> string \<Rightarrow> bool" where
  "contains m k = (map_of m k \<noteq> None)"

definition valueOr :: "QVariantMap \<Rightarrow> string \<Rightarrow> QVariant \<Rightarrow> QVariant" where
  "valueOr m k d = (case map_of m k of None \<Rightarrow> d | Some v \<Rightarrow> v)"

definition valueOf :: "QVariantMap \<Rightarrow> string \<Rightarrow> QVariant" where
  "valueOf m k = valueOr m k Invalid"

text \<open>
  A variant that holds the requested kind converts to itself. What Qt makes of any other
  kind (a number read as a string, a string read as a number, ...) is Qt's business and
  not this repository's: those conversions are the three functions of a \<open>QtConv\<close>, which
  every loader takes as its first argument.
\<close>

record QtConv =
  strOf :: "QVariant \<Rightarrow> string"
  numOf :: "QVariant \<Rightarrow> real"
  boolOf :: "QVariant \<Rightarrow> bool"

fun toString :: "QtConv \<Rightarrow> QVariant \<Rightarrow> string" where
  "toString cv (VString s) = s"
| "toString cv v = strOf cv v"

fun toDouble :: "QtConv \<Rightarrow> QVariant \<Rightarrow> real" where
  "toDouble cv (VDouble d) = d"
| "toDouble cv v = numOf cv v"

fun toBool :: "QtConv \<Rightarrow> QVariant \<Rightarrow> bool" where
  "toBool cv (VBool b) = b"
| "toBool cv v = boolOf cv v"

fun toMap :: "QVariant \<Rightarrow> QVariantMap" where
  "toMap (VMap m) = m"
| "toMap v = []"

text \<open>The conversions Qt falls back to for a null variant, a list or a map.\<close>

definition fallbackConv :: QtConv where
  "fallbackConv = \<lparr>strOf = (\<lambda>v. []), numOf = (\<lambda>v. 0), boolOf = (\<lambda>v. False)\<rparr>"

text \<open>\<open>QString("node_%1").arg(n)\<close> of both \<open>generateNodeId\<close> functions.\<close>

definition digit :: "nat \<Rightarrow> char" where
  "digit n = ''0123456789'' ! n"

function decimal :: "nat \<Rightarrow> string" where
  "decimal n = (if n < 10 then [digit n] else decimal (n div 10) @ [digit (n mod 10)])"
  by pat_completeness auto
termination
  by (relation "measure (\<lambda>n. n)") auto

declare decimal.simps [simp del]

definition nodeName :: "nat \<Rightarrow> string" where
  "nodeName n = ''node_'' @ decimal n"

section \<open>SplitTreeModel\<close>

subsection \<open>TreeNode and the model's members\<close>

datatype NodeType = Panel | Split

text \<open>
  \<open>struct TreeNode\<close>: its plain members are the record \<open>NodeAttrs\<close>, its two owning
  pointers the arguments of the constructor. \<open>addr\<close> is the address of the struct itself;
  \<open>parent\<close> is the raw, non-owning \<open>TreeNode* parent\<close>.
\<close>

record NodeAttrs =
  addr :: addr
  ntype :: NodeType
  nid :: string
  parent :: "addr option"
  title :: string
  qmlSource :: string
  canClose :: bool
  orientation :: Orientation
  splitRatio :: real
  minSize :: real

datatype TreeNode =
  TreeNode (attrs: NodeAttrs) (firstChild: "TreeNode option") (secondChild: "TreeNode option")

text \<open>The constructor \<open>TreeNode(NodeType t, const QString& nodeId, TreeNode* p)\<close> with the
  default member initialisers of the struct.\<close>

definition newTreeNode :: "addr \<Rightarrow> NodeType \<Rightarrow> string \<Rightarrow> addr option \<Rightarrow> NodeAttrs" where
  "newTreeNode a t nodeId p =
     \<lparr>addr = a, ntype = t, nid = nodeId, parent = p, title = [], qmlSource = [],
      canClose = True, orientation = Horizontal, splitRatio = 0.5, minSize = 150\<rparr>"

text \<open>
  The members of the model. \<open>nextAddr\<close> is not a member: it stands for the allocator, which
  never hands out the address of a live object; the model hands out increasing numbers.
  \<open>m_nodeIdCounter\<close> is an \<open>int\<close> that only ever grows from 0; it is a \<open>nat\<close> here.
\<close>

record SplitTreeModel =
  m_root :: "TreeNode option"
  m_panelCount :: int
  m_minPanelSize :: real
  m_nodeIdCounter :: nat
  nextAddr :: addr

definition stm_init :: SplitTreeModel where
  "stm_init = \<lparr>m_root = None, m_panelCount = 0, m_minPanelSize = 150, m_nodeIdCounter = 0,
               nextAddr = 0\<rparr>"

subsection \<open>Pointers into the tree\<close>

text \<open>
  A \<open>TreeNode*\<close> that a search returns is modelled by the node it points to, address
  included. Reading through a stored pointer (\<open>node->parent\<close>, a pointer held across a
  signal) is \<open>lookupNode\<close>: \<open>None\<close> means that the address is not that of a node of the
  tree, and the operation that dereferences it has no defined result (\<open>None\<close> as well).
  Writing through a pointer is \<open>updateNode\<close>.
\<close>

fun lookupNode :: "addr \<Rightarrow> TreeNode option \<Rightarrow> TreeNode option" where
  "lookupNode p None = None"
| "lookupNode p (Some (TreeNode a f s)) =
     (if addr a = p then Some (TreeNode a f s)
      else (case lookupNode p f of Some n \<Rightarrow> Some n | None \<Rightarrow> lookupNode p s))"

fun updateNode :: "addr \<Rightarrow> (TreeNode \<Rightarrow> TreeNode) \<Rightarrow> TreeNode option \<Rightarrow> TreeNode option" where
  "updateNode p g None = None"
| "updateNode p g (Some (TreeNode a f s)) =
     (if addr a = p then Some (g (TreeNode a f s))
      else Some (TreeNode a (updateNode p g f) (updateNode p g s)))"

definition addrOf :: "TreeNode option \<Rightarrow> addr option" where
  "addrOf n = map_option (\<lambda>t. addr (attrs t)) n"

definition setParentPtr :: "addr option \<Rightarrow> TreeNode \<Rightarrow> TreeNode" where
  "setParentPtr p n = TreeNode ((attrs n)\<lparr>parent := p\<rparr>) (firstChild n) (secondChild n)"

subsection \<open>Signals\<close>

text \<open>
  A signal runs the slots connected to it before \<open>emit\<close> returns, and a slot may call back
  into the model. \<open>removePanel\<close> is modelled with its signals: it takes the effect of the
  connected slots on the model as a function of the signal. The other operations are
  modelled as they run when no connected slot calls back into the model.
\<close>

datatype Signal =
    ModelAboutToBeReset | ModelReset | PanelCountChanged | RootChanged | RootNodeChanged
  | PanelRemoved string | LayoutChanged | ChildrenChanged addr

type_synonym StmSlots = "Signal \<Rightarrow> SplitTreeModel \<Rightarrow> SplitTreeModel"

definition noSlots :: "'sig \<Rightarrow> 'st \<Rightarrow> 'st" where
  "noSlots sig st = st"

fun countPanels :: "TreeNode option \<Rightarrow> int" where
  "countPanels None = 0"
| "countPanels (Some (TreeNode a f s)) =
     (if ntype a = Panel then 1 else countPanels f + countPanels s)"

definition updatePanelCount :: "StmSlots \<Rightarrow> SplitTreeModel \<Rightarrow> SplitTreeModel" where
  "updatePanelCount slots m =
     (let m' = m\<lparr>m_panelCount := countPanels (m_root m)\<rparr>
      in if m_panelCount m \<noteq> m_panelCount m' then slots PanelCountChanged m' else m')"

subsection \<open>Searching and creating nodes\<close>

fun findNodeById :: "TreeNode option \<Rightarrow> string \<Rightarrow> TreeNode option" where
  "findNodeById None nodeId = None"
| "findNodeById (Some (TreeNode a f s)) nodeId =
     (if nodeId = [] then None
      else if nid a = nodeId then Some (TreeNode a f s)
      else if ntype a = Split then
        (case findNodeById f nodeId of
           Some found \<Rightarrow> Some found
         | None \<Rightarrow> findNodeById s nodeId)
      else None)"

fun findRightmostPanel :: "TreeNode option \<Rightarrow> TreeNode option" where
  "findRightmostPanel None = None"
| "findRightmostPanel (Some (TreeNode a f s)) =
     (if ntype a = Panel then Some (TreeNode a f s)
      else (case (if s \<noteq> None then findRightmostPanel s else None) of
              Some panel \<Rightarrow> Some panel
            | None \<Rightarrow> (if f \<noteq> None then findRightmostPanel f else None)))"

text \<open>\<open>createPanelNode\<close> and \<open>createSplitNode\<close>; the first argument is the address of the
  new struct.\<close>

definition createPanelNode ::
  "addr \<Rightarrow> string \<Rightarrow> string \<Rightarrow> string \<Rightarrow> SplitTreeModel \<Rightarrow> TreeNode" where
  "createPanelNode a panelId ttl src m =
     TreeNode ((newTreeNode a Panel panelId None)
                 \<lparr>title := ttl, qmlSource := src, canClose := True,
                  minSize := m_minPanelSize m\<rparr>) None None"

definition createSplitNode :: "addr \<Rightarrow> string \<Rightarrow> Orientation \<Rightarrow> SplitTreeModel \<Rightarrow> TreeNode" where
  "createSplitNode a nodeId orient m =
     TreeNode ((newTreeNode a Split nodeId None)
                 \<lparr>orientation := orient, splitRatio := 0.5, minSize := m_minPanelSize m\<rparr>)
       None None"

subsection \<open>Inserting\<close>

text \<open>
  The enumerators of \<open>SplitTreeModel::DropZone\<close> (\<open>None\<close> = 0, \<open>Left\<close>, \<open>Right\<close>, \<open>Top\<close>,
  \<open>Bottom\<close>, \<open>Center\<close> = 5) and of \<open>DockingManager::Direction\<close> (\<open>Left = 1\<close>, ...,
  \<open>Center = 5\<close>) have the same values; both functions take the zone as an \<open>int\<close> and cast.
\<close>

definition Left :: int where "Left = 1"
definition Right :: int where "Right = 2"
definition Top :: int where "Top = 3"
definition Bottom :: int where "Bottom = 4"
definition Center :: int where "Center = 5"

text \<open>
  \<open>insertPanelAt(panel, targetNode, zone)\<close>. The panel has been created by the caller at
  address \<open>nextAddr m\<close>; the new container gets the address after it. On a failing path
  the two structs are freed again (\<open>nextAddr\<close> stays), but \<open>generateNodeId\<close> has already
  counted.

  \<open>stm_insertPanelAt_rebuild\<close> is the function from its first statement up to and
  including \<open>updatePanelCount()\<close>. Its result is \<open>None\<close> where a null or dangling pointer is
  dereferenced on the way, \<open>Some (False, m')\<close> where the function has returned false with
  the model \<open>m'\<close>, and \<open>Some (True, m')\<close> where control has reached the statement after
  \<open>updatePanelCount()\<close> with the model \<open>m'\<close>.
\<close>

definition stm_insertPanelAt_rebuild ::
  "TreeNode option \<Rightarrow> TreeNode option \<Rightarrow> int \<Rightarrow> SplitTreeModel
     \<Rightarrow> (bool \<times> SplitTreeModel) option" where
  "stm_insertPanelAt_rebuild panel targetNode zone m =
     (case (panel, targetNode) of
        (Some pnl, Some target) \<Rightarrow>
          if zone \<noteq> Left \<and> zone \<noteq> Right \<and> zone \<noteq> Top \<and> zone \<noteq> Bottom then Some (False, m)
          else
            let orient = (if zone = Left \<or> zone = Right then Vertical else Horizontal);
                reverseOrder = (zone = Left \<or> zone = Top);
                m0 = m\<lparr>m_nodeIdCounter := Suc (m_nodeIdCounter m)\<rparr>;
                c = Suc (nextAddr m);
                container = createSplitNode c (nodeName (m_nodeIdCounter m0)) orient m0;
                pnl' = setParentPtr (Some c) pnl
            in if Some (addr (attrs target)) = addrOf (m_root m0) then
                 (case m_root m0 of
                    None \<Rightarrow> None
                  | Some oldRoot \<Rightarrow>
                      let oldRoot' = setParentPtr (Some c) oldRoot;
                          container' =
                            (if reverseOrder
                             then TreeNode (attrs container) (Some pnl') (Some oldRoot')
                             else TreeNode (attrs container) (Some oldRoot') (Some pnl'))
                      in Some (True, updatePanelCount noSlots
                                 (m0\<lparr>m_root := Some container', nextAddr := Suc c\<rparr>)))
               else
                 (case parent (attrs target) of
                    None \<Rightarrow> Some (False, m0)
                  | Some pa \<Rightarrow>
                      (case lookupNode pa (m_root m0) of
                         None \<Rightarrow> None
                       | Some parentNode \<Rightarrow>
                           let takeFirst =
                                 (addrOf (firstChild parentNode) = Some (addr (attrs target)));
                               targetOwnership =
                                 (if takeFirst then firstChild parentNode
                                  else secondChild parentNode);
                               first1 = (if takeFirst then None else firstChild parentNode);
                               second1 = (if takeFirst then secondChild parentNode else None)
                           in (case targetOwnership of
                                 None \<Rightarrow> None
                               | Some owned \<Rightarrow>
                                   let owned' = setParentPtr (Some c) owned;
                                       container' =
                                         (if reverseOrder
                                          then TreeNode ((attrs container)\<lparr>parent := Some pa\<rparr>)
                                                 (Some pnl') (Some owned')
                                          else TreeNode ((attrs container)\<lparr>parent := Some pa\<rparr>)
                                                 (Some owned') (Some pnl'));
                                       parentNode' =
                                         (if first1 = None
                                          then TreeNode (attrs parentNode) (Some container') second1
                                          else TreeNode (attrs parentNode) first1 (Some container'))
                                   in Some (True, updatePanelCount noSlots
                                              (m0\<lparr>m_root :=
                                                     updateNode pa (\<lambda>n. parentNode') (m_root m0),
                                                   nextAddr := Suc c\<rparr>)))))
      | _ \<Rightarrow> Some (False, m))"

text \<open>
  The statement after \<open>updatePanelCount()\<close> is \<open>emit panelAdded(panel->id)\<close>. On both
  branches that lead there \<open>panel\<close> has been moved into the container
  (\<open>container->firstChild = std::move(panel)\<close> or \<open>container->secondChild = std::move(panel)\<close>),
  so \<open>panel\<close> is a null \<open>unique_ptr\<close> and \<open>panel->id\<close> dereferences it: the call has no
  result, like every other dereference of a null pointer in this model. \<open>emit layoutChanged()\<close>
  and \<open>return true\<close> come after it.
\<close>

definition stm_insertPanelAt ::
  "TreeNode option \<Rightarrow> TreeNode option \<Rightarrow> int \<Rightarrow> SplitTreeModel
     \<Rightarrow> (bool \<times> SplitTreeModel) option" where
  "stm_insertPanelAt panel targetNode zone m =
     (case stm_insertPanelAt_rebuild panel targetNode zone m of
        None \<Rightarrow> None
      | Some (reached, m') \<Rightarrow> if reached then None else Some (False, m'))"

definition stm_addPanel ::
  "string \<Rightarrow> string \<Rightarrow> string \<Rightarrow> SplitTreeModel \<Rightarrow> (bool \<times> SplitTreeModel) option" where
  "stm_addPanel panelId ttl src m =
     (if panelId = [] then Some (False, m)
      else if findNodeById (m_root m) panelId \<noteq> None then Some (False, m)
      else
        let panel = createPanelNode (nextAddr m) panelId ttl src m
        in if m_root m = None
           then Some (True, updatePanelCount noSlots
                        (m\<lparr>m_root := Some panel, nextAddr := Suc (nextAddr m)\<rparr>))
           else
             let target = (case findRightmostPanel (m_root m) of
                             Some t \<Rightarrow> Some t
                           | None \<Rightarrow> m_root m)
             in stm_insertPanelAt (Some panel) target Bottom m)"

definition stm_addPanelAt ::
  "string \<Rightarrow> string \<Rightarrow> string \<Rightarrow> string \<Rightarrow> int \<Rightarrow> SplitTreeModel
     \<Rightarrow> (bool \<times> SplitTreeModel) option" where
  "stm_addPanelAt panelId ttl src targetId dropZone m =
     (if panelId = [] then Some (False, m)
      else if findNodeById (m_root m) panelId \<noteq> None then Some (False, m)
      else
        let panel = createPanelNode (nextAddr m) panelId ttl src m
        in if m_root m = None
           then Some (True, updatePanelCount noSlots
                        (m\<lparr>m_root := Some panel, nextAddr := Suc (nextAddr m)\<rparr>))
           else
             let target = (case findNodeById (m_root m) targetId of
                             Some t \<Rightarrow> Some t
                           | None \<Rightarrow> m_root m)
             in stm_insertPanelAt (Some panel) target dropZone m)"

subsection \<open>Removing\<close>

text \<open>The common tail of \<open>removePanel\<close>: \<open>updatePanelCount\<close>, \<open>panelRemoved\<close>,
  \<open>layoutChanged\<close>.\<close>

definition stm_removed :: "StmSlots \<Rightarrow> string \<Rightarrow> SplitTreeModel \<Rightarrow> SplitTreeModel" where
  "stm_removed slots panelId m =
     slots LayoutChanged (slots (PanelRemoved panelId) (updatePanelCount slots m))"

definition stm_removePanel ::
  "StmSlots \<Rightarrow> string \<Rightarrow> SplitTreeModel \<Rightarrow> (bool \<times> SplitTreeModel) option" where
  "stm_removePanel slots panelId m =
     (case findNodeById (m_root m) panelId of
        None \<Rightarrow> Some (False, m)
      | Some node \<Rightarrow>
          if ntype (attrs node) \<noteq> Panel then Some (False, m)
          else if Some (addr (attrs node)) = addrOf (m_root m) then
            let m1 = slots ModelAboutToBeReset m;
                m2 = slots ModelReset (m1\<lparr>m_root := None\<rparr>);
                m3 = slots RootChanged (updatePanelCount slots m2)
            in Some (True, slots LayoutChanged (slots (PanelRemoved panelId) m3))
          else
            (case parent (attrs node) of
               None \<Rightarrow> Some (False, m)
             | Some pa \<Rightarrow>
                 (case lookupNode pa (m_root m) of
                    None \<Rightarrow> None
                  | Some parentNode \<Rightarrow>
                      if ntype (attrs parentNode) \<noteq> Split then Some (False, m)
                      else
                        let sibling =
                              (if addrOf (firstChild parentNode) = Some (addr (attrs node))
                               then secondChild parentNode else firstChild parentNode);
                            m1 = m\<lparr>m_root :=
                                     updateNode pa (\<lambda>n. TreeNode (attrs n) None None) (m_root m)\<rparr>
                        in if Some pa = addrOf (m_root m1) then
                             let m2 = slots ModelAboutToBeReset m1;
                                 m3 = m2\<lparr>m_root := map_option (setParentPtr None) sibling\<rparr>
                             in Some (True, stm_removed slots panelId (slots ModelReset m3))
                           else
                             (case (parent (attrs parentNode), sibling) of
                                (Some gp, Some sib) \<Rightarrow>
                                  let m2 = slots ModelAboutToBeReset m1
                                  in (case lookupNode gp (m_root m2) of
                                        None \<Rightarrow> None
                                      | Some grandParent \<Rightarrow>
                                          let sib' = setParentPtr (Some gp) sib;
                                              grandParent' =
                                                (if addrOf (firstChild grandParent) = Some pa
                                                 then TreeNode (attrs grandParent) (Some sib')
                                                        (secondChild grandParent)
                                                 else TreeNode (attrs grandParent)
                                                        (firstChild grandParent) (Some sib'));
                                              m3 = m2\<lparr>m_root :=
                                                        updateNode gp (\<lambda>n. grandParent')
                                                          (m_root m2)\<rparr>
                                          in Some (True, stm_removed slots panelId
                                                           (slots ModelReset m3)))
                              | _ \<Rightarrow> Some (True, stm_removed slots panelId m1)))))"

definition stm_clear :: "SplitTreeModel \<Rightarrow> SplitTreeModel" where
  "stm_clear m =
     (if m_root m = None then m else updatePanelCount noSlots (m\<lparr>m_root := None\<rparr>))"

subsection \<open>Serialisation\<close>

fun toVariantMap :: "TreeNode \<Rightarrow> QVariantMap" where
  "toVariantMap (TreeNode a f s) =
     (if ntype a = Panel then
        [(''type'', VString ''panel''), (''id'', VString (nid a)), (''title'', VString (title a)),
         (''qmlSource'', VString (qmlSource a)), (''canClose'', VBool (canClose a)),
         (''minSize'', VDouble (minSize a))]
      else
        [(''type'', VString ''split''), (''id'', VString (nid a)),
         (''orientation'',
            VString (if orientation a = Horizontal then ''horizontal'' else ''vertical'')),
         (''splitRatio'', VDouble (splitRatio a)), (''minSize'', VDouble (minSize a))]
        @ (case f of None \<Rightarrow> [] | Some c \<Rightarrow> [(''firstChild'', VMap (toVariantMap c))])
        @ (case s of None \<Rightarrow> [] | Some c \<Rightarrow> [(''secondChild'', VMap (toVariantMap c))]))"

definition stm_saveLayout :: "SplitTreeModel \<Rightarrow> QVariantMap" where
  "stm_saveLayout m =
     [(''version'', VString ''2.0''), (''model'', VString ''DockingTreeModel''),
      (''minPanelSize'', VDouble (m_minPanelSize m))]
     @ (case m_root m of None \<Rightarrow> [] | Some r \<Rightarrow> [(''root'', VMap (toVariantMap r))])"

lemma size_map_of: "map_of m k = Some v \<Longrightarrow> Suc (size v) < size (VMap m)"
  by (induction m) (auto split: if_splits)

lemma size_toMap_valueOf: "contains m k \<Longrightarrow> size (VMap (toMap (valueOf m k))) < size (VMap m)"
proof -
  assume "contains m k"
  then obtain v where v: "map_of m k = Some v"
    by (auto simp: contains_def)
  then have "Suc (size v) < size (VMap m)"
    by (rule size_map_of)
  moreover have "size (VMap (toMap v)) \<le> Suc (size v)"
    by (cases v) auto
  ultimately show ?thesis
    using v by (simp add: valueOf_def valueOr_def)
qed

text \<open>
  \<open>loadNodeFromVariant(data, parent)\<close>. The third argument is the current \<open>m_minPanelSize\<close>,
  the last one the next free address; the result is the node (or \<open>nullptr\<close>) and the next
  free address. Nodes are allocated top-down, before their children. The members that the
  two branches assign are set apart in \<open>stm_panelFromVariant\<close> and \<open>stm_splitFromVariant\<close>.
\<close>

definition stm_panelFromVariant ::
  "QtConv \<Rightarrow> real \<Rightarrow> QVariantMap \<Rightarrow> addr option \<Rightarrow> addr \<Rightarrow> TreeNode" where
  "stm_panelFromVariant cv mps data p a =
     TreeNode
       ((newTreeNode a Panel (toString cv (valueOf data ''id'')) p)
          \<lparr>title := toString cv (valueOf data ''title''),
           qmlSource := toString cv (valueOf data ''qmlSource''),
           canClose := toBool cv (valueOr data ''canClose'' (VBool True)),
           minSize := toDouble cv (valueOr data ''minSize'' (VDouble mps))\<rparr>)
       None None"

definition stm_splitFromVariant ::
  "QtConv \<Rightarrow> real \<Rightarrow> QVariantMap \<Rightarrow> addr option \<Rightarrow> addr \<Rightarrow> NodeAttrs" where
  "stm_splitFromVariant cv mps data p a =
     (newTreeNode a Split (toString cv (valueOf data ''id'')) p)
       \<lparr>orientation :=
          (if toString cv (valueOf data ''orientation'') = ''horizontal''
           then Horizontal else Vertical),
        splitRatio := toDouble cv (valueOr data ''splitRatio'' (VDouble 0.5)),
        minSize := toDouble cv (valueOr data ''minSize'' (VDouble mps))\<rparr>"

function stm_loadNodeFromVariant ::
  "QtConv \<Rightarrow> real \<Rightarrow> QVariantMap \<Rightarrow> addr option \<Rightarrow> addr \<Rightarrow> TreeNode option \<times> addr" where
  "stm_loadNodeFromVariant cv mps data p a =
     (if toString cv (valueOf data ''type'') = ''panel'' then
        (Some (stm_panelFromVariant cv mps data p a), Suc a)
      else if toString cv (valueOf data ''type'') = ''split'' then
        (case (if contains data ''firstChild''
               then stm_loadNodeFromVariant cv mps (toMap (valueOf data ''firstChild''))
                      (Some a) (Suc a)
               else (None, Suc a)) of
           (f, a1) \<Rightarrow>
             (case (if contains data ''secondChild''
                    then stm_loadNodeFromVariant cv mps (toMap (valueOf data ''secondChild''))
                           (Some a) a1
                    else (None, a1)) of
                (s, a2) \<Rightarrow> (Some (TreeNode (stm_splitFromVariant cv mps data p a) f s), a2)))
      else (None, a))"
  by pat_completeness auto
termination
  by (relation "measure (\<lambda>(cv, mps, data, p, a). size (VMap data))")
     (auto simp: size_toMap_valueOf simp del: QVariant.size)

declare stm_loadNodeFromVariant.simps [simp del]

text \<open>\<open>loadLayout\<close> returns its \<open>bool\<close> and the model after the call.\<close>

definition stm_loadLayout ::
  "QtConv \<Rightarrow> QVariantMap \<Rightarrow> SplitTreeModel \<Rightarrow> bool \<times> SplitTreeModel" where
  "stm_loadLayout cv layout m =
     (if layout = [] then (False, m)
      else if toString cv (valueOf layout ''version'') \<noteq> ''2.0'' then (False, m)
      else
        let m1 = m\<lparr>m_root := None\<rparr>;
            m2 = (if contains layout ''minPanelSize''
                  then m1\<lparr>m_minPanelSize := toDouble cv (valueOf layout ''minPanelSize'')\<rparr>
                  else m1);
            m3 = (if contains layout ''root''
                  then (case stm_loadNodeFromVariant cv (m_minPanelSize m2)
                               (toMap (valueOf layout ''root'')) None (nextAddr m2) of
                          (r, a) \<Rightarrow> m2\<lparr>m_root := r, nextAddr := a\<rparr>)
                  else m2)
        in (True, updatePanelCount noSlots m3))"

section \<open>DockingManager\<close>

subsection \<open>PanelNode, ContainerNode and the manager's members\<close>

text \<open>
  \<open>DockingManager.hpp\<close> includes \<open>DockingNode.hpp\<close>, which the sources do not hold; the
  node classes are taken from \<open>SplitPanelNode.hpp\<close>, the same header under its later name
  (its closing comments still read \<open>DockingNodeHelpers\<close> and \<open>DOCKING_NODE_HPP\<close>).

  \<open>QObject::parent()\<close> of a node is \<open>nullptr\<close>, the manager (every node is constructed with
  \<open>this\<close> as parent) or the container that \<open>setFirstChild\<close>, \<open>setSecondChild\<close> or
  \<open>replaceChildInContainer\<close> made its parent.
\<close>

datatype QParent = NoParent | ManagerParent | NodeParent addr

datatype DockingNode =
    PanelNode (nodeAddr: addr) (qparent: QParent) (m_id: string) (m_minSize: real)
      (m_title: string) (m_qmlSource: string)
  | ContainerNode (nodeAddr: addr) (qparent: QParent) (m_id: string) (m_minSize: real)
      (m_orientation: Orientation) (m_splitRatio: real)
      (m_firstChild: "DockingNode option") (m_secondChild: "DockingNode option")

text \<open>The two constructors with the default member initialisers (\<open>m_minSize = 150.0\<close>,
  \<open>m_splitRatio = 0.5\<close>, empty \<open>m_qmlSource\<close>, no children).\<close>

definition newPanelNode :: "addr \<Rightarrow> string \<Rightarrow> string \<Rightarrow> DockingNode" where
  "newPanelNode a nodeId ttl = PanelNode a ManagerParent nodeId 150 ttl []"

definition newContainerNode :: "addr \<Rightarrow> string \<Rightarrow> Orientation \<Rightarrow> DockingNode" where
  "newContainerNode a nodeId orient = ContainerNode a ManagerParent nodeId 150 orient 0.5 None None"

fun setParent :: "QParent \<Rightarrow> DockingNode \<Rightarrow> DockingNode" where
  "setParent q (PanelNode a p i ms t src) = PanelNode a q i ms t src"
| "setParent q (ContainerNode a p i ms ori r f s) = ContainerNode a q i ms ori r f s"

fun setMinSize :: "real \<Rightarrow> DockingNode \<Rightarrow> DockingNode" where
  "setMinSize sz (PanelNode a p i ms t src) =
     PanelNode a p i (safeSetValue ms (validateMinSize sz)) t src"
| "setMinSize sz (ContainerNode a p i ms ori r f s) =
     ContainerNode a p i (safeSetValue ms (validateMinSize sz)) ori r f s"

fun setQmlSource :: "string \<Rightarrow> DockingNode \<Rightarrow> DockingNode" where
  "setQmlSource source (PanelNode a p i ms t src) = PanelNode a p i ms t source"
| "setQmlSource source n = n"

fun setSplitRatio :: "real \<Rightarrow> DockingNode \<Rightarrow> DockingNode" where
  "setSplitRatio ratio (ContainerNode a p i ms ori r f s) =
     ContainerNode a p i ms ori (safeSetValue r (validateSplitRatio ratio)) f s"
| "setSplitRatio ratio n = n"

text \<open>\<open>setFirstChild\<close> and \<open>setSecondChild\<close> take ownership of the child and make the
  container its Qt parent; \<open>takeFirstChild\<close> and \<open>takeSecondChild\<close> move the child out and
  leave its Qt parent as it is. The model of a \<open>take\<close> returns the child and the container.\<close>

fun setFirstChild :: "DockingNode option \<Rightarrow> DockingNode \<Rightarrow> DockingNode" where
  "setFirstChild child (ContainerNode a p i ms ori r f s) =
     ContainerNode a p i ms ori r (map_option (setParent (NodeParent a)) child) s"
| "setFirstChild child n = n"

fun setSecondChild :: "DockingNode option \<Rightarrow> DockingNode \<Rightarrow> DockingNode" where
  "setSecondChild child (ContainerNode a p i ms ori r f s) =
     ContainerNode a p i ms ori r f (map_option (setParent (NodeParent a)) child)"
| "setSecondChild child n = n"

fun takeFirstChild :: "DockingNode \<Rightarrow> DockingNode option \<times> DockingNode" where
  "takeFirstChild (ContainerNode a p i ms ori r f s) = (f, ContainerNode a p i ms ori r None s)"
| "takeFirstChild n = (None, n)"

fun takeSecondChild :: "DockingNode \<Rightarrow> DockingNode option \<times> DockingNode" where
  "takeSecondChild (ContainerNode a p i ms ori r f s) = (s, ContainerNode a p i ms ori r f None)"
| "takeSecondChild n = (None, n)"

text \<open>\<open>firstChild()\<close> and \<open>secondChild()\<close> of a node that \<open>qobject_cast\<close> has shown to be a
  container; on a panel the cast is null and the source does not call them.\<close>

fun firstChildOf :: "DockingNode \<Rightarrow> DockingNode option" where
  "firstChildOf (ContainerNode a p i ms ori r f s) = f"
| "firstChildOf n = None"

fun secondChildOf :: "DockingNode \<Rightarrow> DockingNode option" where
  "secondChildOf (ContainerNode a p i ms ori r f s) = s"
| "secondChildOf n = None"

fun isContainer :: "DockingNode \<Rightarrow> bool" where
  "isContainer (ContainerNode a p i ms ori r f s) = True"
| "isContainer n = False"

text \<open>
  The members of the manager. \<open>dm_panels\<close> is the \<open>QHash\<close> \<open>m_panels\<close> from identifier to
  \<open>PanelNode*\<close>, kept as an association list with one entry for each key; \<open>currentlyRemoving\<close>
  is the function-local \<open>static QString\<close> of \<open>removePanel\<close>; \<open>dm_nextAddr\<close> stands for the
  allocator, as \<open>nextAddr\<close> does above.
\<close>

record DockingManager =
  dm_root :: "DockingNode option"
  dm_panels :: "(string \<times> addr) list"
  dm_minPanelSize :: real
  dm_nodeIdCounter :: nat
  currentlyRemoving :: string
  dm_nextAddr :: addr

definition dm_init :: DockingManager where
  "dm_init = \<lparr>dm_root = None, dm_panels = [], dm_minPanelSize = 150, dm_nodeIdCounter = 0,
              currentlyRemoving = [], dm_nextAddr = 0\<rparr>"

definition panelCount :: "DockingManager \<Rightarrow> int" where
  "panelCount d = int (length (dm_panels d))"

definition dm_setMinPanelSize :: "real \<Rightarrow> DockingManager \<Rightarrow> DockingManager" where
  "dm_setMinPanelSize sz d =
     d\<lparr>dm_minPanelSize := safeSetValue (dm_minPanelSize d) (validateMinSize sz)\<rparr>"

definition registerPanel :: "string \<Rightarrow> addr \<Rightarrow> DockingManager \<Rightarrow> DockingManager" where
  "registerPanel panelId panel d = d\<lparr>dm_panels := AList.update panelId panel (dm_panels d)\<rparr>"

definition unregisterPanel :: "string \<Rightarrow> DockingManager \<Rightarrow> DockingManager" where
  "unregisterPanel panelId d = d\<lparr>dm_panels := AList.delete panelId (dm_panels d)\<rparr>"

definition dm_clear :: "DockingManager \<Rightarrow> DockingManager" where
  "dm_clear d = d\<lparr>dm_root := None, dm_panels := []\<rparr>"

fun dm_countPanels :: "DockingNode option \<Rightarrow> int" where
  "dm_countPanels None = 0"
| "dm_countPanels (Some (PanelNode a p i ms t src)) = 1"
| "dm_countPanels (Some (ContainerNode a p i ms ori r f s)) = dm_countPanels f + dm_countPanels s"

subsection \<open>Serialisation\<close>

fun toVariant :: "DockingNode \<Rightarrow> QVariantMap" where
  "toVariant (PanelNode a p i ms t src) =
     [(''type'', VString ''panel''), (''id'', VString i), (''title'', VString t),
      (''qmlSource'', VString src), (''minSize'', VDouble ms)]"
| "toVariant (ContainerNode a p i ms ori r f s) =
     [(''type'', VString ''container''), (''id'', VString i),
      (''orientation'', VString (if ori = Horizontal then ''horizontal'' else ''vertical'')),
      (''splitRatio'', VDouble r), (''minSize'', VDouble ms)]
     @ (case f of None \<Rightarrow> [] | Some c \<Rightarrow> [(''first'', VMap (toVariant c))])
     @ (case s of None \<Rightarrow> [] | Some c \<Rightarrow> [(''second'', VMap (toVariant c))])"

definition dm_saveLayout :: "DockingManager \<Rightarrow> QVariantMap" where
  "dm_saveLayout d =
     [(''version'', VString ''2.0''), (''minPanelSize'', VDouble (dm_minPanelSize d))]
     @ (case dm_root d of None \<Rightarrow> [] | Some r \<Rightarrow> [(''root'', VMap (toVariant r))])"

text \<open>
  \<open>loadNodeFromVariant(data)\<close>. It reads \<open>m_minPanelSize\<close> (third argument), writes
  \<open>m_panels\<close> and allocates: registry and next free address go in and come out. The
  construction of a node and the setters called on it are set apart in
  \<open>dm_panelFromVariant\<close> and \<open>dm_containerFromVariant\<close>.
\<close>

definition dm_panelFromVariant :: "QtConv \<Rightarrow> real \<Rightarrow> QVariantMap \<Rightarrow> addr \<Rightarrow> DockingNode" where
  "dm_panelFromVariant cv mps data a =
     setMinSize (toDouble cv (valueOr data ''minSize'' (VDouble mps)))
       (setQmlSource (toString cv (valueOf data ''qmlSource''))
          (newPanelNode a (toString cv (valueOf data ''id''))
             (toString cv (valueOf data ''title''))))"

definition dm_containerFromVariant ::
  "QtConv \<Rightarrow> real \<Rightarrow> QVariantMap \<Rightarrow> addr \<Rightarrow> DockingNode" where
  "dm_containerFromVariant cv mps data a =
     setMinSize (toDouble cv (valueOr data ''minSize'' (VDouble mps)))
       (setSplitRatio (toDouble cv (valueOr data ''splitRatio'' (VDouble 0.5)))
          (newContainerNode a (toString cv (valueOf data ''id''))
             (if toString cv (valueOf data ''orientation'') = ''horizontal''
              then Horizontal else Vertical)))"

function dm_loadNodeFromVariant ::
  "QtConv \<Rightarrow> real \<Rightarrow> QVariantMap \<Rightarrow> (string \<times> addr) list \<Rightarrow> addr
     \<Rightarrow> DockingNode option \<times> (string \<times> addr) list \<times> addr" where
  "dm_loadNodeFromVariant cv mps data panels a =
     (if toString cv (valueOf data ''type'') = ''panel'' then
        (Some (dm_panelFromVariant cv mps data a),
         AList.update (toString cv (valueOf data ''id'')) a panels, Suc a)
      else if toString cv (valueOf data ''type'') = ''container'' then
        (case (if contains data ''first''
               then dm_loadNodeFromVariant cv mps (toMap (valueOf data ''first'')) panels (Suc a)
               else (None, panels, Suc a)) of
           (f, panels1, a1) \<Rightarrow>
             (case (if contains data ''second''
                    then dm_loadNodeFromVariant cv mps (toMap (valueOf data ''second'')) panels1 a1
                    else (None, panels1, a1)) of
                (s, panels2, a2) \<Rightarrow>
                  (Some
                     ((if contains data ''second'' then setSecondChild s else (\<lambda>n. n))
                        ((if contains data ''first'' then setFirstChild f else (\<lambda>n. n))
                           (dm_containerFromVariant cv mps data a))),
                   panels2, a2)))
      else (None, panels, a))"
  by pat_completeness auto
termination
  by (relation "measure (\<lambda>(cv, mps, data, panels, a). size (VMap data))")
     (auto simp: size_toMap_valueOf simp del: QVariant.size)

declare dm_loadNodeFromVariant.simps [simp del]

definition dm_loadLayout ::
  "QtConv \<Rightarrow> QVariantMap \<Rightarrow> DockingManager \<Rightarrow> bool \<times> DockingManager" where
  "dm_loadLayout cv layout d =
     (if toString cv (valueOf layout ''version'') \<noteq> ''2.0'' then (False, d)
      else
        let d1 = dm_clear d;
            d2 = (if contains layout ''minPanelSize''
                  then dm_setMinPanelSize (toDouble cv (valueOf layout ''minPanelSize'')) d1
                  else d1)
        in if contains layout ''root''
           then (case dm_loadNodeFromVariant cv (dm_minPanelSize d2)
                        (toMap (valueOf layout ''root'')) (dm_panels d2) (dm_nextAddr d2) of
                   (r, panels, a) \<Rightarrow>
                     (r \<noteq> None, d2\<lparr>dm_root := r, dm_panels := panels, dm_nextAddr := a\<rparr>))
           else (True, d2))"

subsection \<open>Pointers into the tree\<close>

fun dm_lookupNode :: "addr \<Rightarrow> DockingNode option \<Rightarrow> DockingNode option" where
  "dm_lookupNode x None = None"
| "dm_lookupNode x (Some (PanelNode a p i ms t src)) =
     (if a = x then Some (PanelNode a p i ms t src) else None)"
| "dm_lookupNode x (Some (ContainerNode a p i ms ori r f s)) =
     (if a = x then Some (ContainerNode a p i ms ori r f s)
      else (case dm_lookupNode x f of Some n \<Rightarrow> Some n | None \<Rightarrow> dm_lookupNode x s))"

fun dm_updateNode ::
  "addr \<Rightarrow> (DockingNode \<Rightarrow> DockingNode) \<Rightarrow> DockingNode option \<Rightarrow> DockingNode option" where
  "dm_updateNode x g None = None"
| "dm_updateNode x g (Some (PanelNode a p i ms t src)) =
     (if a = x then Some (g (PanelNode a p i ms t src)) else Some (PanelNode a p i ms t src))"
| "dm_updateNode x g (Some (ContainerNode a p i ms ori r f s)) =
     (if a = x then Some (g (ContainerNode a p i ms ori r f s))
      else Some (ContainerNode a p i ms ori r (dm_updateNode x g f) (dm_updateNode x g s)))"

definition deref :: "addr \<Rightarrow> DockingManager \<Rightarrow> DockingNode option" where
  "deref x d = dm_lookupNode x (dm_root d)"

definition store :: "addr \<Rightarrow> DockingNode \<Rightarrow> DockingManager \<Rightarrow> DockingManager" where
  "store x n d = d\<lparr>dm_root := dm_updateNode x (\<lambda>old. n) (dm_root d)\<rparr>"

definition ptr :: "DockingNode option \<Rightarrow> addr option" where
  "ptr n = map_option nodeAddr n"

type_synonym DmSlots = "Signal \<Rightarrow> DockingManager \<Rightarrow> DockingManager"

subsection \<open>Searching and creating nodes\<close>

fun findNode :: "DockingNode option \<Rightarrow> string \<Rightarrow> DockingNode option" where
  "findNode None ident = None"
| "findNode (Some (PanelNode a p i ms t src)) ident =
     (if i = ident then Some (PanelNode a p i ms t src) else None)"
| "findNode (Some (ContainerNode a p i ms ori r f s)) ident =
     (if i = ident then Some (ContainerNode a p i ms ori r f s)
      else (case findNode f ident of Some found \<Rightarrow> Some found | None \<Rightarrow> findNode s ident))"

fun dm_findRightmostPanel :: "DockingNode option \<Rightarrow> DockingNode option" where
  "dm_findRightmostPanel None = None"
| "dm_findRightmostPanel (Some (PanelNode a p i ms t src)) = Some (PanelNode a p i ms t src)"
| "dm_findRightmostPanel (Some (ContainerNode a p i ms ori r f s)) =
     (if s \<noteq> None then dm_findRightmostPanel s
      else if f \<noteq> None then dm_findRightmostPanel f
      else None)"

text \<open>\<open>createPanelNode\<close> allocates: it returns the panel and the manager with the next free
  address moved on. An address that has been handed out is not handed out again, so a
  pointer to a destroyed node stays dangling.\<close>

definition dm_createPanelNode ::
  "string \<Rightarrow> string \<Rightarrow> string \<Rightarrow> DockingManager \<Rightarrow> DockingNode \<times> DockingManager" where
  "dm_createPanelNode ident ttl src d =
     (setMinSize (dm_minPanelSize d) (setQmlSource src (newPanelNode (dm_nextAddr d) ident ttl)),
      d\<lparr>dm_nextAddr := Suc (dm_nextAddr d)\<rparr>)"

subsection \<open>Inserting\<close>

definition dm_insertPanelAt ::
  "DockingNode option \<Rightarrow> DockingNode option \<Rightarrow> int \<Rightarrow> DockingManager
     \<Rightarrow> (bool \<times> DockingManager) option" where
  "dm_insertPanelAt panel target dir d =
     (case (target, panel) of
        (Some tgt, Some pnl) \<Rightarrow>
          if dir \<noteq> Left \<and> dir \<noteq> Right \<and> dir \<noteq> Top \<and> dir \<noteq> Bottom then Some (False, d)
          else
            let orient = (if dir = Left \<or> dir = Right then Vertical else Horizontal);
                panelIsFirst = (dir = Left \<or> dir = Top)
            in if Some (nodeAddr tgt) = ptr (dm_root d) then
                 let d1 = d\<lparr>dm_nodeIdCounter := Suc (dm_nodeIdCounter d),
                            dm_nextAddr := Suc (dm_nextAddr d)\<rparr>;
                     container =
                       newContainerNode (dm_nextAddr d) (nodeName (dm_nodeIdCounter d1)) orient;
                     container' =
                       (if panelIsFirst
                        then setSecondChild (dm_root d1) (setFirstChild (Some pnl) container)
                        else setSecondChild (Some pnl) (setFirstChild (dm_root d1) container))
                 in Some (True, d1\<lparr>dm_root := Some container'\<rparr>)
               else
                 (case qparent tgt of
                    NodeParent pa \<Rightarrow>
                      (case deref pa d of
                         None \<Rightarrow> None
                       | Some parentContainer \<Rightarrow>
                           if \<not> isContainer parentContainer then Some (False, d)
                           else
                             let d1 = d\<lparr>dm_nodeIdCounter := Suc (dm_nodeIdCounter d),
                                        dm_nextAddr := Suc (dm_nextAddr d)\<rparr>;
                                 newContainer =
                                   newContainerNode (dm_nextAddr d)
                                     (nodeName (dm_nodeIdCounter d1)) orient
                             in if ptr (firstChildOf parentContainer) \<noteq> Some (nodeAddr tgt)
                                   \<and> ptr (secondChildOf parentContainer) \<noteq> Some (nodeAddr tgt)
                                then Some (False, d1)
                                else
                                  let taken =
                                        (if ptr (firstChildOf parentContainer)
                                              = Some (nodeAddr tgt)
                                         then takeFirstChild parentContainer
                                         else takeSecondChild parentContainer);
                                      targetNode = fst taken;
                                      parentContainer1 = snd taken;
                                      newContainer' =
                                        (if panelIsFirst
                                         then setSecondChild targetNode
                                                (setFirstChild (Some pnl) newContainer)
                                         else setSecondChild (Some pnl)
                                                (setFirstChild targetNode newContainer));
                                      parentContainer2 =
                                        (if firstChildOf parentContainer1 = None
                                         then setFirstChild (Some newContainer') parentContainer1
                                         else setSecondChild (Some newContainer') parentContainer1)
                                  in Some (True, store pa parentContainer2 d1))
                  | _ \<Rightarrow> Some (False, d))
      | _ \<Rightarrow> Some (False, d))"

definition dm_addPanel ::
  "string \<Rightarrow> string \<Rightarrow> string \<Rightarrow> DockingManager \<Rightarrow> (bool \<times> DockingManager) option" where
  "dm_addPanel panelId ttl src d =
     (case dm_createPanelNode panelId ttl src d of
        (panel, d1) \<Rightarrow>
          if dm_root d1 = None
          then Some (True, (registerPanel panelId (nodeAddr panel) d1)\<lparr>dm_root := Some panel\<rparr>)
          else
            (case dm_findRightmostPanel (dm_root d1) of
               None \<Rightarrow> Some (False, d1)
             | Some rightmost \<Rightarrow>
                 dm_insertPanelAt (Some panel) (Some rightmost) Right
                   (registerPanel panelId (nodeAddr panel) d1)))"

definition dm_addPanelAt ::
  "string \<Rightarrow> string \<Rightarrow> string \<Rightarrow> string \<Rightarrow> int \<Rightarrow> DockingManager
     \<Rightarrow> (bool \<times> DockingManager) option" where
  "dm_addPanelAt panelId ttl src targetId direction d =
     (case findNode (dm_root d) targetId of
        None \<Rightarrow> Some (False, d)
      | Some target \<Rightarrow>
          (case dm_createPanelNode panelId ttl src d of
             (panel, d1) \<Rightarrow>
               dm_insertPanelAt (Some panel) (Some target) direction
                 (registerPanel panelId (nodeAddr panel) d1)))"

subsection \<open>Removing\<close>

text \<open>
  \<open>removePanel\<close> with its signals. The pointers it holds across a signal (\<open>panel\<close>,
  \<open>parentContainer\<close>) are addresses, read again in the manager as the slots left it; the
  sibling that has been taken out is owned by the function and is a value.
  \<open>getParentContainer\<close> yields \<open>Some None\<close> for the null result of the \<open>qobject_cast\<close>.
\<close>

definition getParentContainer :: "addr \<Rightarrow> DockingManager \<Rightarrow> addr option option" where
  "getParentContainer node d =
     (case deref node d of
        None \<Rightarrow> None
      | Some n \<Rightarrow>
          (case qparent n of
             NodeParent pa \<Rightarrow>
               (case deref pa d of
                  None \<Rightarrow> None
                | Some c \<Rightarrow> Some (if isContainer c then Some pa else None))
           | _ \<Rightarrow> Some None))"

definition takeSiblingNode ::
  "DmSlots \<Rightarrow> addr \<Rightarrow> addr \<Rightarrow> DockingManager
     \<Rightarrow> ((DockingNode option \<times> bool) \<times> DockingManager) option" where
  "takeSiblingNode slots parentC targetChild d =
     (case deref parentC d of
        None \<Rightarrow> None
      | Some pc \<Rightarrow>
          if ptr (firstChildOf pc) = Some targetChild then
            Some ((fst (takeSecondChild pc), True),
                  slots (ChildrenChanged parentC) (store parentC (snd (takeSecondChild pc)) d))
          else if ptr (secondChildOf pc) = Some targetChild then
            Some ((fst (takeFirstChild pc), False),
                  slots (ChildrenChanged parentC) (store parentC (snd (takeFirstChild pc)) d))
          else Some ((None, False), d))"

definition replaceChildInContainer ::
  "DmSlots \<Rightarrow> addr \<Rightarrow> addr \<Rightarrow> DockingNode option \<Rightarrow> DockingManager
     \<Rightarrow> (bool \<times> DockingManager) option" where
  "replaceChildInContainer slots container oldChild newChild d =
     (case deref container d of
        None \<Rightarrow> None
      | Some c \<Rightarrow>
          let newChild' = map_option (setParent (NodeParent container)) newChild
          in if ptr (firstChildOf c) = Some oldChild then
               Some (True, slots (ChildrenChanged container)
                             (store container (setFirstChild newChild' c) d))
             else if ptr (secondChildOf c) = Some oldChild then
               Some (True, slots (ChildrenChanged container)
                             (store container (setSecondChild newChild' c) d))
             else Some (False, d))"

definition promoteSiblingNode ::
  "DmSlots \<Rightarrow> addr \<Rightarrow> DockingNode option \<Rightarrow> DockingManager
     \<Rightarrow> (bool \<times> DockingManager) option" where
  "promoteSiblingNode slots parentContainer sibling d =
     (if Some parentContainer = ptr (dm_root d)
      then Some (True, d\<lparr>dm_root := map_option (setParent NoParent) sibling\<rparr>)
      else
        (case getParentContainer parentContainer d of
           None \<Rightarrow> None
         | Some None \<Rightarrow> Some (False, d)
         | Some (Some grandParent) \<Rightarrow>
             replaceChildInContainer slots grandParent parentContainer sibling d))"

definition emitPanelRemovedSignals :: "DmSlots \<Rightarrow> string \<Rightarrow> DockingManager \<Rightarrow> DockingManager" where
  "emitPanelRemovedSignals slots panelId d =
     slots LayoutChanged
       (slots (PanelRemoved panelId) (slots PanelCountChanged (slots RootNodeChanged d)))"

definition finalizePanelRemoval :: "DmSlots \<Rightarrow> string \<Rightarrow> DockingManager \<Rightarrow> DockingManager" where
  "finalizePanelRemoval slots panelId d = emitPanelRemovedSignals slots panelId d"

definition clearGuard :: "DockingManager \<Rightarrow> DockingManager" where
  "clearGuard d = d\<lparr>currentlyRemoving := []\<rparr>"

definition dm_removePanel ::
  "DmSlots \<Rightarrow> string \<Rightarrow> DockingManager \<Rightarrow> (bool \<times> DockingManager) option" where
  "dm_removePanel slots panelId d =
     (if currentlyRemoving d = panelId then Some (False, d)
      else
        let d0 = d\<lparr>currentlyRemoving := panelId\<rparr>
        in (case map_of (dm_panels d0) panelId of
              None \<Rightarrow> Some (False, clearGuard d0)
            | Some panel \<Rightarrow>
                (case deref panel d0 of
                   None \<Rightarrow> None
                 | Some pnl \<Rightarrow>
                     let d1 = unregisterPanel panelId d0
                     in if Some panel = ptr (dm_root d1) then
                          Some (True, clearGuard
                                  (finalizePanelRemoval slots panelId (d1\<lparr>dm_root := None\<rparr>)))
                        else
                          (case getParentContainer panel d1 of
                             None \<Rightarrow> None
                           | Some None \<Rightarrow> Some (False, clearGuard d1)
                           | Some (Some parentContainer) \<Rightarrow>
                               (case takeSiblingNode slots parentContainer panel d1 of
                                  None \<Rightarrow> None
                                | Some ((sibling, isFirst), d2) \<Rightarrow>
                                    (case (if sibling = None
                                           then map_option
                                                  (\<lambda>pc. ptr (firstChildOf pc) \<noteq> Some panel
                                                      \<and> ptr (secondChildOf pc) \<noteq> Some panel)
                                                  (deref parentContainer d2)
                                           else Some False) of
                                       None \<Rightarrow> None
                                     | Some True \<Rightarrow> Some (False, clearGuard d2)
                                     | Some False \<Rightarrow>
                                         (case promoteSiblingNode slots parentContainer
                                                 sibling d2 of
                                            None \<Rightarrow> None
                                          | Some (promoted, d3) \<Rightarrow>
                                              if \<not> promoted then Some (False, clearGuard d3)
                                              else Some (True, clearGuard
                                                           (finalizePanelRemoval slots
                                                              panelId d3)))))))))"

definition dm_updateSplitRatio ::
  "string \<Rightarrow> real \<Rightarrow> DockingManager \<Rightarrow> bool \<times> DockingManager" where
  "dm_updateSplitRatio containerId ratio d =
     (case findNode (dm_root d) containerId of
        None \<Rightarrow> (False, d)
      | Some node \<Rightarrow>
          if \<not> isContainer node then (False, d)
          else (True, store (nodeAddr node) (setSplitRatio ratio node) d))"

section \<open>Notions used in the statements\<close>

text \<open>A node document whose type tag the loader of the model (of the manager) does not
  know.\<close>

definition stm_unknownTag :: "QtConv \<Rightarrow> QVariantMap \<Rightarrow> bool" where
  "stm_unknownTag cv data =
     (toString cv (valueOf data ''type'') \<noteq> ''panel''
      \<and> toString cv (valueOf data ''type'') \<noteq> ''split'')"

definition dm_unknownTag :: "QtConv \<Rightarrow> QVariantMap \<Rightarrow> bool" where
  "dm_unknownTag cv data =
     (toString cv (valueOf data ''type'') \<noteq> ''panel''
      \<and> toString cv (valueOf data ''type'') \<noteq> ''container'')"

text \<open>Documents for the concrete instances: a node of type \<open>"tab"\<close>, a panel, and a
  container (with the given type tag and child keys) whose first child is the \<open>"tab"\<close> node
  and whose second child is a panel.\<close>

definition tabDoc :: QVariantMap where
  "tabDoc = [(''type'', VString ''tab''), (''id'', VString ''T'')]"

definition panelDoc :: "string \<Rightarrow> QVariantMap" where
  "panelDoc ident =
     [(''type'', VString ''panel''), (''id'', VString ident), (''title'', VString ident),
      (''qmlSource'', VString ''qrc:/P.qml''), (''minSize'', VDouble 150)]"

definition splitDoc :: "string \<Rightarrow> string \<Rightarrow> string \<Rightarrow> QVariantMap" where
  "splitDoc tag k1 k2 =
     [(''type'', VString tag), (''id'', VString ''node_1''),
      (''orientation'', VString ''vertical''), (''splitRatio'', VDouble 0.5),
      (''minSize'', VDouble 150), (k1, VMap tabDoc), (k2, VMap (panelDoc ''B''))]"

text \<open>
  Well-formed trees. The addresses of the nodes differ, every node's parent pointer is the
  address of the node that owns it (\<open>nullptr\<close> at the root of a \<open>SplitTreeModel\<close>; the
  manager or \<open>nullptr\<close> at the root of a \<open>DockingManager\<close>), and every address in use lies
  below the next free one. These are the conditions under which following a parent pointer is
  defined.
\<close>

fun addrs :: "TreeNode option \<Rightarrow> addr list" where
  "addrs None = []"
| "addrs (Some (TreeNode a f s)) = addr a # addrs f @ addrs s"

fun parentsOk :: "addr option \<Rightarrow> TreeNode option \<Rightarrow> bool" where
  "parentsOk p None = True"
| "parentsOk p (Some (TreeNode a f s)) =
     (parent a = p \<and> parentsOk (Some (addr a)) f \<and> parentsOk (Some (addr a)) s)"

definition stm_wf :: "SplitTreeModel \<Rightarrow> bool" where
  "stm_wf m =
     (distinct (addrs (m_root m)) \<and> parentsOk None (m_root m)
      \<and> list_all (\<lambda>x. x < nextAddr m) (addrs (m_root m)))"

fun dm_addrs :: "DockingNode option \<Rightarrow> addr list" where
  "dm_addrs None = []"
| "dm_addrs (Some (PanelNode a p i ms t src)) = [a]"
| "dm_addrs (Some (ContainerNode a p i ms ori r f s)) = a # dm_addrs f @ dm_addrs s"

fun childOf :: "addr \<Rightarrow> DockingNode option \<Rightarrow> bool" where
  "childOf a None = True"
| "childOf a (Some c) = (qparent c = NodeParent a)"

fun dm_parentsOk :: "DockingNode option \<Rightarrow> bool" where
  "dm_parentsOk None = True"
| "dm_parentsOk (Some (PanelNode a p i ms t src)) = True"
| "dm_parentsOk (Some (ContainerNode a p i ms ori r f s)) =
     (childOf a f \<and> childOf a s \<and> dm_parentsOk f \<and> dm_parentsOk s)"

fun rootParentOk :: "DockingNode option \<Rightarrow> bool" where
  "rootParentOk None = True"
| "rootParentOk (Some r) = (qparent r = ManagerParent \<or> qparent r = NoParent)"

definition dm_wf :: "DockingManager \<Rightarrow> bool" where
  "dm_wf d =
     (distinct (dm_addrs (dm_root d)) \<and> dm_parentsOk (dm_root d) \<and> rootParentOk (dm_root d)
      \<and> list_all (\<lambda>x. x < dm_nextAddr d) (dm_addrs (dm_root d)))"

text \<open>
  Trees for the concrete instances: panel \<open>A\<close> alone, and \<open>A\<close> with \<open>B\<close> inserted to its
  right. The lemmas \<open>scenario_*\<close> name the calls that build them.
\<close>

definition stm_A :: SplitTreeModel where
  "stm_A = \<lparr>m_root = Some (createPanelNode 0 ''A'' ''a'' ''qrc:/A.qml'' stm_init),
            m_panelCount = 1, m_minPanelSize = 150, m_nodeIdCounter = 0, nextAddr = 1\<rparr>"

definition stm_AB :: SplitTreeModel where
  "stm_AB =
     \<lparr>m_root = Some (TreeNode ((newTreeNode 2 Split ''node_1'' None)\<lparr>orientation := Vertical\<rparr>)
         (Some (setParentPtr (Some 2) (createPanelNode 0 ''A'' ''a'' ''qrc:/A.qml'' stm_init)))
         (Some (setParentPtr (Some 2) (createPanelNode 1 ''B'' ''b'' ''qrc:/B.qml'' stm_init)))),
      m_panelCount = 2, m_minPanelSize = 150, m_nodeIdCounter = 1, nextAddr = 3\<rparr>"

definition dm_A :: DockingManager where
  "dm_A = \<lparr>dm_root = Some (PanelNode 0 ManagerParent ''A'' 150 ''a'' ''qrc:/A.qml''),
           dm_panels = [(''A'', 0)], dm_minPanelSize = 150, dm_nodeIdCounter = 0,
           currentlyRemoving = [], dm_nextAddr = 1\<rparr>"

definition dm_AB :: DockingManager where
  "dm_AB =
     \<lparr>dm_root = Some (ContainerNode 2 ManagerParent ''node_1'' 150 Vertical 0.5
         (Some (PanelNode 0 (NodeParent 2) ''A'' 150 ''a'' ''qrc:/A.qml''))
         (Some (PanelNode 1 (NodeParent 2) ''B'' 150 ''b'' ''qrc:/B.qml''))),
      dm_panels = [(''A'', 0), (''B'', 1)], dm_minPanelSize = 150, dm_nodeIdCounter = 1,
      currentlyRemoving = [], dm_nextAddr = 3\<rparr>"

text \<open>The tree of \<open>A\<close>, \<open>B\<close> and \<open>C\<close>: \<open>C\<close> inserted to the right of \<open>B\<close>.\<close>

definition stm_ABC :: SplitTreeModel where
  "stm_ABC =
     \<lparr>m_root = Some (TreeNode ((newTreeNode 2 Split ''node_1'' None)\<lparr>orientation := Vertical\<rparr>)
         (Some (setParentPtr (Some 2) (createPanelNode 0 ''A'' ''a'' ''qrc:/A.qml'' stm_init)))
         (Some (TreeNode ((newTreeNode 4 Split ''node_2'' (Some 2))\<lparr>orientation := Vertical\<rparr>)
            (Some (setParentPtr (Some 4) (createPanelNode 1 ''B'' ''b'' ''qrc:/B.qml'' stm_init)))
            (Some (setParentPtr (Some 4)
                     (createPanelNode 3 ''C'' ''c'' ''qrc:/C.qml'' stm_init)))))),
      m_panelCount = 3, m_minPanelSize = 150, m_nodeIdCounter = 2, nextAddr = 5\<rparr>"

definition dm_ABC :: DockingManager where
  "dm_ABC =
     \<lparr>dm_root = Some (ContainerNode 2 ManagerParent ''node_1'' 150 Vertical 0.5
         (Some (PanelNode 0 (NodeParent 2) ''A'' 150 ''a'' ''qrc:/A.qml''))
         (Some (ContainerNode 4 (NodeParent 2) ''node_2'' 150 Vertical 0.5
            (Some (PanelNode 1 (NodeParent 4) ''B'' 150 ''b'' ''qrc:/B.qml''))
            (Some (PanelNode 3 (NodeParent 4) ''C'' 150 ''c'' ''qrc:/C.qml''))))),
      dm_panels = [(''A'', 0), (''B'', 1), (''C'', 3)], dm_minPanelSize = 150,
      dm_nodeIdCounter = 2, currentlyRemoving = [], dm_nextAddr = 5\<rparr>"

text \<open>
  A remove request issued from inside a slot, and the slot that issues it on every signal it
  receives. The signals of the nested request itself reach no slot.

  \<open>stm_nested\<close> and \<open>dm_nested\<close> are the outcome of the request where the model has one.
  The model keeps the nodes of the tree and no others. In \<open>DockingManager\<close> the subtree that
  \<open>takeSiblingNode\<close> has moved out of its container is alive while \<open>childrenChanged\<close> is
  delivered, and its panels are still in \<open>m_panels\<close>: the code can run a request for one of
  them (for the moved-out panel itself it unregisters it, clears \<open>currentlyRemoving\<close> and
  returns false), the model has no result for it. Where the request has no result,
  \<open>stm_nested\<close> and \<open>dm_nested\<close> stand for a slot that makes no request and reports false;
  they follow the code for the requests that have a result. The statements of this
  theory use them for the identifier whose removal is in progress: in \<open>DockingManager\<close>
  such a request ends at the guard, in \<open>SplitTreeModel\<close> it searches the tree from the
  root, and both have a result.
\<close>

definition stm_nested :: "string \<Rightarrow> SplitTreeModel \<Rightarrow> bool \<times> SplitTreeModel" where
  "stm_nested panelId m =
     (case stm_removePanel noSlots panelId m of None \<Rightarrow> (False, m) | Some r \<Rightarrow> r)"

definition stm_reenter :: "string \<Rightarrow> StmSlots" where
  "stm_reenter panelId sig m = snd (stm_nested panelId m)"

definition dm_nested :: "string \<Rightarrow> DockingManager \<Rightarrow> bool \<times> DockingManager" where
  "dm_nested panelId d =
     (case dm_removePanel noSlots panelId d of None \<Rightarrow> (False, d) | Some r \<Rightarrow> r)"

definition dm_reenter :: "string \<Rightarrow> DmSlots" where
  "dm_reenter panelId sig d = snd (dm_nested panelId d)"

text \<open>
  The layout of a tree: what is left of it when addresses and parent pointers are put
  aside, that is node kinds, identifiers, child order, orientations, split ratios, titles,
  content references and minimum sizes. A panel is a leaf: no operation gives a Panel node
  of \<open>SplitTreeModel\<close> a child.
\<close>

datatype Layout =
    PanelL string string string real
  | SplitL string Orientation real real "Layout option" "Layout option"

fun stm_layoutOf :: "TreeNode \<Rightarrow> Layout" where
  "stm_layoutOf (TreeNode a f s) =
     (if ntype a = Panel then PanelL (nid a) (title a) (qmlSource a) (minSize a)
      else SplitL (nid a) (orientation a) (splitRatio a) (minSize a)
             (map_option stm_layoutOf f) (map_option stm_layoutOf s))"

fun dm_layoutOf :: "DockingNode \<Rightarrow> Layout" where
  "dm_layoutOf (PanelNode a p i ms t src) = PanelL i t src ms"
| "dm_layoutOf (ContainerNode a p i ms ori r f s) =
     SplitL i ori r ms (map_option dm_layoutOf f) (map_option dm_layoutOf s)"

text \<open>A layout whose split ratios and minimum sizes lie in the ranges of
  \<open>validateSplitRatio\<close> and \<open>validateMinSize\<close>.\<close>

fun inRange :: "Layout \<Rightarrow> bool" where
  "inRange (PanelL i t src ms) = (50 \<le> ms \<and> ms \<le> 1000)"
| "inRange (SplitL i ori r ms f s) =
     (0.1 \<le> r \<and> r \<le> 0.9 \<and> 50 \<le> ms \<and> ms \<le> 1000
      \<and> (case f of None \<Rightarrow> True | Some c \<Rightarrow> inRange c)
      \<and> (case s of None \<Rightarrow> True | Some c \<Rightarrow> inRange c))"

text \<open>The layout with every split ratio that \<open>qFuzzyCompare\<close> equates with 0.5 replaced by
  0.5, and every minimum size that it equates with 150 replaced by 150: the values the
  setters of a freshly constructed node keep.\<close>

fun snapped :: "Layout \<Rightarrow> Layout" where
  "snapped (PanelL i t src ms) = PanelL i t src (safeSetValue 150 ms)"
| "snapped (SplitL i ori r ms f s) =
     SplitL i ori (safeSetValue 0.5 r) (safeSetValue 150 ms)
       (map_option snapped f) (map_option snapped s)"

text \<open>A manager whose tree and whose \<open>m_minPanelSize\<close> are in range, and the tree of
  \<open>A\<close> and \<open>B\<close> with the split ratio of its container set to \<open>r\<close>.\<close>

definition dm_inRange :: "DockingManager \<Rightarrow> bool" where
  "dm_inRange d =
     ((case dm_root d of None \<Rightarrow> True | Some n \<Rightarrow> inRange (dm_layoutOf n))
      \<and> 50 \<le> dm_minPanelSize d \<and> dm_minPanelSize d \<le> 1000)"

definition dm_ABr :: "real \<Rightarrow> DockingManager" where
  "dm_ABr r =
     \<lparr>dm_root = Some (ContainerNode 2 ManagerParent ''node_1'' 150 Vertical r
         (Some (PanelNode 0 (NodeParent 2) ''A'' 150 ''a'' ''qrc:/A.qml''))
         (Some (PanelNode 1 (NodeParent 2) ''B'' 150 ''b'' ''qrc:/B.qml''))),
      dm_panels = [(''A'', 0), (''B'', 1)], dm_minPanelSize = 150, dm_nodeIdCounter = 1,
      currentlyRemoving = [], dm_nextAddr = 3\<rparr>"

text \<open>The panel count of a \<open>SplitTreeModel\<close> agrees with its tree.\<close>

definition stm_countOk :: "SplitTreeModel \<Rightarrow> bool" where
  "stm_countOk m = (m_panelCount m = countPanels (m_root m))"

section \<open>Verified properties\<close>

subsection \<open>Loading: version check\<close>

lemma stm_loadLayout_version_mismatch:
  "toString cv (valueOf layout ''version'') \<noteq> ''2.0'' \<Longrightarrow> stm_loadLayout cv layout m = (False, m)"
  by (simp add: stm_loadLayout_def)

lemma dm_loadLayout_version_mismatch:
  "toString cv (valueOf layout ''version'') \<noteq> ''2.0'' \<Longrightarrow> dm_loadLayout cv layout d = (False, d)"
  by (simp add: dm_loadLayout_def)

text \<open>
  C8. A layout document whose version tag (the string that \<open>loadLayout\<close> compares, that is
  \<open>layout.value("version").toString()\<close>) is not \<open>"2.0"\<close> makes \<open>loadLayout\<close> return false
  with every member of the model or manager as it was before the call: tree, registry,
  minimum panel size, counters. This holds for both engines and for any current state.
\<close>

theorem C8_version_mismatch_leaves_state:
  assumes "toString cv (valueOf layout ''version'') \<noteq> ''2.0''"
  shows "stm_loadLayout cv layout m = (False, m) \<and> dm_loadLayout cv layout d = (False, d)"
  using assms by (simp add: stm_loadLayout_version_mismatch dm_loadLayout_version_mismatch)

theorem C8_version_mismatch_witness:
  "toString fallbackConv
     (valueOf [(''version'', VString ''1.0''),
               (''root'', VMap [(''type'', VString ''panel''), (''id'', VString ''A'')])]
        ''version'') \<noteq> ''2.0''
   \<and> stm_loadLayout fallbackConv
       [(''version'', VString ''1.0''),
        (''root'', VMap [(''type'', VString ''panel''), (''id'', VString ''A'')])]
       (stm_init\<lparr>m_root := Some (TreeNode (newTreeNode 0 Panel ''B'' None) None None),
                  m_panelCount := 1, nextAddr := 1\<rparr>)
     = (False, stm_init\<lparr>m_root := Some (TreeNode (newTreeNode 0 Panel ''B'' None) None None),
                         m_panelCount := 1, nextAddr := 1\<rparr>)
   \<and> dm_loadLayout fallbackConv
       [(''version'', VString ''1.0''),
        (''root'', VMap [(''type'', VString ''panel''), (''id'', VString ''A'')])]
       (dm_init\<lparr>dm_root := Some (newPanelNode 0 ''B'' ''b''), dm_panels := [(''B'', 0)],
                 dm_nextAddr := 1\<rparr>)
     = (False, dm_init\<lparr>dm_root := Some (newPanelNode 0 ''B'' ''b''), dm_panels := [(''B'', 0)],
                        dm_nextAddr := 1\<rparr>)"
proof -
  have v: "toString fallbackConv
     (valueOf [(''version'', VString ''1.0''),
               (''root'', VMap [(''type'', VString ''panel''), (''id'', VString ''A'')])]
        ''version'') \<noteq> ''2.0''"
    by (simp add: valueOf_def valueOr_def)
  show ?thesis
    using v C8_version_mismatch_leaves_state [OF v] by blast
qed

subsection \<open>Loading: unknown type tags\<close>

lemma valueOf_delete: "k' \<noteq> k \<Longrightarrow> valueOf (AList.delete k m) k' = valueOf m k'"
  by (simp add: valueOf_def valueOr_def AList.delete_conv)

lemma valueOr_delete: "k' \<noteq> k \<Longrightarrow> valueOr (AList.delete k m) k' d = valueOr m k' d"
  by (simp add: valueOr_def AList.delete_conv)

lemma contains_delete: "contains (AList.delete k m) k' = (k' \<noteq> k \<and> contains m k')"
  by (auto simp add: contains_def AList.delete_conv)

lemma stm_split_delete:
  "k = ''firstChild'' \<or> k = ''secondChild'' \<Longrightarrow>
   stm_splitFromVariant cv mps (AList.delete k data) p a = stm_splitFromVariant cv mps data p a"
  by (auto simp add: stm_splitFromVariant_def valueOf_delete valueOr_delete)

lemma dm_container_delete:
  "k = ''first'' \<or> k = ''second'' \<Longrightarrow>
   dm_containerFromVariant cv mps (AList.delete k data) a = dm_containerFromVariant cv mps data a"
  by (auto simp add: dm_containerFromVariant_def valueOf_delete valueOr_delete)

lemma stm_load_unknown:
  "stm_unknownTag cv data \<Longrightarrow> stm_loadNodeFromVariant cv mps data p a = (None, a)"
  by (simp add: stm_unknownTag_def stm_loadNodeFromVariant.simps)

lemma dm_load_unknown:
  "dm_unknownTag cv data \<Longrightarrow> dm_loadNodeFromVariant cv mps data panels a = (None, panels, a)"
  by (simp add: dm_unknownTag_def dm_loadNodeFromVariant.simps)

lemma stm_load_split_Some:
  "toString cv (valueOf data ''type'') = ''split'' \<Longrightarrow>
   fst (stm_loadNodeFromVariant cv mps data p a) \<noteq> None"
  by (subst stm_loadNodeFromVariant.simps) (simp split: prod.splits)

lemma stm_load_drops_first:
  assumes "toString cv (valueOf data ''type'') = ''split''"
    and "stm_unknownTag cv (toMap (valueOf data ''firstChild''))"
  shows "stm_loadNodeFromVariant cv mps data p a
         = stm_loadNodeFromVariant cv mps (AList.delete ''firstChild'' data) p a"
  using assms
  by (subst stm_loadNodeFromVariant.simps, subst (2) stm_loadNodeFromVariant.simps)
     (simp add: valueOf_delete contains_delete stm_load_unknown stm_split_delete)

lemma stm_load_drops_second:
  assumes "toString cv (valueOf data ''type'') = ''split''"
    and "stm_unknownTag cv (toMap (valueOf data ''secondChild''))"
  shows "stm_loadNodeFromVariant cv mps data p a
         = stm_loadNodeFromVariant cv mps (AList.delete ''secondChild'' data) p a"
  using assms
  by (subst stm_loadNodeFromVariant.simps, subst (2) stm_loadNodeFromVariant.simps)
     (simp add: valueOf_delete contains_delete stm_load_unknown stm_split_delete
        split: prod.splits)

lemma dm_load_container_Some:
  "toString cv (valueOf data ''type'') = ''container'' \<Longrightarrow>
   fst (dm_loadNodeFromVariant cv mps data panels a) \<noteq> None"
  by (subst dm_loadNodeFromVariant.simps) (simp split: prod.splits)

lemma firstChildOf_fromVariant: "firstChildOf (dm_containerFromVariant cv mps data a) = None"
  by (simp add: newContainerNode_def dm_containerFromVariant_def)

lemma secondChildOf_fromVariant: "secondChildOf (dm_containerFromVariant cv mps data a) = None"
  by (simp add: newContainerNode_def dm_containerFromVariant_def)

lemma setFirstChild_None: "firstChildOf n = None \<Longrightarrow> setFirstChild None n = n"
  by (cases n) auto

lemma setSecondChild_None: "secondChildOf n = None \<Longrightarrow> setSecondChild None n = n"
  by (cases n) auto

lemma secondChildOf_setFirstChild: "secondChildOf (setFirstChild c n) = secondChildOf n"
  by (cases n) auto

lemma dm_load_drops_first:
  assumes "toString cv (valueOf data ''type'') = ''container''"
    and "dm_unknownTag cv (toMap (valueOf data ''first''))"
  shows "dm_loadNodeFromVariant cv mps data panels a
         = dm_loadNodeFromVariant cv mps (AList.delete ''first'' data) panels a"
  using assms
  by (subst dm_loadNodeFromVariant.simps, subst (2) dm_loadNodeFromVariant.simps)
     (simp add: valueOf_delete contains_delete dm_load_unknown dm_container_delete
        setFirstChild_None firstChildOf_fromVariant)

lemma dm_load_drops_second:
  assumes "toString cv (valueOf data ''type'') = ''container''"
    and "dm_unknownTag cv (toMap (valueOf data ''second''))"
  shows "dm_loadNodeFromVariant cv mps data panels a
         = dm_loadNodeFromVariant cv mps (AList.delete ''second'' data) panels a"
  using assms
  by (subst dm_loadNodeFromVariant.simps, subst (2) dm_loadNodeFromVariant.simps)
     (simp add: valueOf_delete contains_delete dm_load_unknown dm_container_delete
        setSecondChild_None secondChildOf_fromVariant secondChildOf_setFirstChild
        split: prod.splits)

lemma nodeAddr_fromVariant: "nodeAddr (dm_containerFromVariant cv mps data a) = a"
  by (simp add: newContainerNode_def dm_containerFromVariant_def)

lemma firstChildOf_setSecondChild: "firstChildOf (setSecondChild c n) = firstChildOf n"
  by (cases n) auto

lemma secondChildOf_setSecondChild:
  "isContainer n \<Longrightarrow>
   secondChildOf (setSecondChild c n) = map_option (setParent (NodeParent (nodeAddr n))) c"
  by (cases n) auto

lemma firstChildOf_setFirstChild:
  "isContainer n \<Longrightarrow>
   firstChildOf (setFirstChild c n) = map_option (setParent (NodeParent (nodeAddr n))) c"
  by (cases n) auto

lemma isContainer_fromVariant: "isContainer (dm_containerFromVariant cv mps data a)"
  by (simp add: newContainerNode_def dm_containerFromVariant_def)

lemma stm_load_first_unknown:
  assumes "toString cv (valueOf data ''type'') = ''split''"
    and "stm_unknownTag cv (toMap (valueOf data ''firstChild''))"
  shows "stm_loadNodeFromVariant cv mps data p a
         = (let other = (if contains data ''secondChild''
                         then stm_loadNodeFromVariant cv mps
                                (toMap (valueOf data ''secondChild'')) (Some a) (Suc a)
                         else (None, Suc a))
            in (Some (TreeNode (stm_splitFromVariant cv mps data p a) None (fst other)),
                snd other))"
  using assms
  by (subst stm_loadNodeFromVariant.simps)
     (simp add: stm_load_unknown Let_def split: prod.splits)

lemma stm_load_second_unknown:
  assumes "toString cv (valueOf data ''type'') = ''split''"
    and "stm_unknownTag cv (toMap (valueOf data ''secondChild''))"
  shows "stm_loadNodeFromVariant cv mps data p a
         = (let other = (if contains data ''firstChild''
                         then stm_loadNodeFromVariant cv mps
                                (toMap (valueOf data ''firstChild'')) (Some a) (Suc a)
                         else (None, Suc a))
            in (Some (TreeNode (stm_splitFromVariant cv mps data p a) (fst other) None),
                snd other))"
  using assms
  by (subst stm_loadNodeFromVariant.simps)
     (simp add: stm_load_unknown Let_def split: prod.splits)

lemma dm_load_first_unknown:
  assumes "toString cv (valueOf data ''type'') = ''container''"
    and "dm_unknownTag cv (toMap (valueOf data ''first''))"
  shows "dm_loadNodeFromVariant cv mps data panels a
         = (let other = (if contains data ''second''
                         then dm_loadNodeFromVariant cv mps
                                (toMap (valueOf data ''second'')) panels (Suc a)
                         else (None, panels, Suc a))
            in (Some (setSecondChild (fst other) (dm_containerFromVariant cv mps data a)),
                snd other))"
  using assms
  by (subst dm_loadNodeFromVariant.simps)
     (simp add: dm_load_unknown Let_def setFirstChild_None firstChildOf_fromVariant
        setSecondChild_None secondChildOf_fromVariant split: prod.splits)

lemma dm_load_second_unknown:
  assumes "toString cv (valueOf data ''type'') = ''container''"
    and "dm_unknownTag cv (toMap (valueOf data ''second''))"
  shows "dm_loadNodeFromVariant cv mps data panels a
         = (let other = (if contains data ''first''
                         then dm_loadNodeFromVariant cv mps
                                (toMap (valueOf data ''first'')) panels (Suc a)
                         else (None, panels, Suc a))
            in (Some (setFirstChild (fst other) (dm_containerFromVariant cv mps data a)),
                snd other))"
  using assms
  by (subst dm_loadNodeFromVariant.simps)
     (simp add: dm_load_unknown Let_def setFirstChild_None firstChildOf_fromVariant
        setSecondChild_None secondChildOf_fromVariant secondChildOf_setFirstChild
        split: prod.splits)

text \<open>
  C9. A node document whose type tag is not one the loader knows (\<open>"panel"\<close> and \<open>"split"\<close>
  for \<open>SplitTreeModel\<close>, \<open>"panel"\<close> and \<open>"container"\<close> for \<open>DockingManager\<close>) loads as
  \<open>nullptr\<close>, allocating and registering nothing. A container document with such a
  document as its first child loads to a node all the same: the node has the members
  that the container document gives it, its first slot is empty, and its second slot
  holds what the document of the second child loads to (nothing if there is none), loaded
  with the container as parent at the address after the container's; the registry and the
  next free address are the ones that load leaves. The same with first and second
  exchanged.
\<close>

theorem C9_unknown_type_tag_leaves_slot_empty:
  "(stm_unknownTag cv bad \<longrightarrow> stm_loadNodeFromVariant cv mps bad p a = (None, a))
   \<and> (toString cv (valueOf data ''type'') = ''split''
        \<and> stm_unknownTag cv (toMap (valueOf data ''firstChild''))
      \<longrightarrow> (let other = (if contains data ''secondChild''
                         then stm_loadNodeFromVariant cv mps
                                (toMap (valueOf data ''secondChild'')) (Some a) (Suc a)
                         else (None, Suc a))
           in stm_loadNodeFromVariant cv mps data p a
              = (Some (TreeNode (stm_splitFromVariant cv mps data p a) None (fst other)),
                 snd other)))
   \<and> (toString cv (valueOf data ''type'') = ''split''
        \<and> stm_unknownTag cv (toMap (valueOf data ''secondChild''))
      \<longrightarrow> (let other = (if contains data ''firstChild''
                         then stm_loadNodeFromVariant cv mps
                                (toMap (valueOf data ''firstChild'')) (Some a) (Suc a)
                         else (None, Suc a))
           in stm_loadNodeFromVariant cv mps data p a
              = (Some (TreeNode (stm_splitFromVariant cv mps data p a) (fst other) None),
                 snd other)))
   \<and> (dm_unknownTag cv bad' \<longrightarrow> dm_loadNodeFromVariant cv mps bad' panels a = (None, panels, a))
   \<and> (toString cv (valueOf data' ''type'') = ''container''
        \<and> dm_unknownTag cv (toMap (valueOf data' ''first''))
      \<longrightarrow> (let other = (if contains data' ''second''
                         then dm_loadNodeFromVariant cv mps
                                (toMap (valueOf data' ''second'')) panels (Suc a)
                         else (None, panels, Suc a));
               node = setSecondChild (fst other) (dm_containerFromVariant cv mps data' a)
           in dm_loadNodeFromVariant cv mps data' panels a = (Some node, snd other)
              \<and> firstChildOf node = None
              \<and> secondChildOf node = map_option (setParent (NodeParent a)) (fst other)))
   \<and> (toString cv (valueOf data' ''type'') = ''container''
        \<and> dm_unknownTag cv (toMap (valueOf data' ''second''))
      \<longrightarrow> (let other = (if contains data' ''first''
                         then dm_loadNodeFromVariant cv mps
                                (toMap (valueOf data' ''first'')) panels (Suc a)
                         else (None, panels, Suc a));
               node = setFirstChild (fst other) (dm_containerFromVariant cv mps data' a)
           in dm_loadNodeFromVariant cv mps data' panels a = (Some node, snd other)
              \<and> firstChildOf node = map_option (setParent (NodeParent a)) (fst other)
              \<and> secondChildOf node = None))"
proof -
  have s0: "stm_unknownTag cv bad \<longrightarrow> stm_loadNodeFromVariant cv mps bad p a = (None, a)"
    by (simp add: stm_load_unknown)
  have s1: "toString cv (valueOf data ''type'') = ''split''
        \<and> stm_unknownTag cv (toMap (valueOf data ''firstChild''))
      \<longrightarrow> (let other = (if contains data ''secondChild''
                         then stm_loadNodeFromVariant cv mps
                                (toMap (valueOf data ''secondChild'')) (Some a) (Suc a)
                         else (None, Suc a))
           in stm_loadNodeFromVariant cv mps data p a
              = (Some (TreeNode (stm_splitFromVariant cv mps data p a) None (fst other)),
                 snd other))"
    using stm_load_first_unknown [of cv data mps p a] by (simp add: Let_def)
  have s2: "toString cv (valueOf data ''type'') = ''split''
        \<and> stm_unknownTag cv (toMap (valueOf data ''secondChild''))
      \<longrightarrow> (let other = (if contains data ''firstChild''
                         then stm_loadNodeFromVariant cv mps
                                (toMap (valueOf data ''firstChild'')) (Some a) (Suc a)
                         else (None, Suc a))
           in stm_loadNodeFromVariant cv mps data p a
              = (Some (TreeNode (stm_splitFromVariant cv mps data p a) (fst other) None),
                 snd other))"
    using stm_load_second_unknown [of cv data mps p a] by (simp add: Let_def)
  have d0: "dm_unknownTag cv bad' \<longrightarrow>
      dm_loadNodeFromVariant cv mps bad' panels a = (None, panels, a)"
    by (simp add: dm_load_unknown)
  have d1: "toString cv (valueOf data' ''type'') = ''container''
        \<and> dm_unknownTag cv (toMap (valueOf data' ''first''))
      \<longrightarrow> (let other = (if contains data' ''second''
                         then dm_loadNodeFromVariant cv mps
                                (toMap (valueOf data' ''second'')) panels (Suc a)
                         else (None, panels, Suc a));
               node = setSecondChild (fst other) (dm_containerFromVariant cv mps data' a)
           in dm_loadNodeFromVariant cv mps data' panels a = (Some node, snd other)
              \<and> firstChildOf node = None
              \<and> secondChildOf node = map_option (setParent (NodeParent a)) (fst other))"
    using dm_load_first_unknown [of cv data' mps panels a]
    by (simp add: Let_def firstChildOf_setSecondChild firstChildOf_fromVariant
        secondChildOf_setSecondChild isContainer_fromVariant nodeAddr_fromVariant)
  have d2: "toString cv (valueOf data' ''type'') = ''container''
        \<and> dm_unknownTag cv (toMap (valueOf data' ''second''))
      \<longrightarrow> (let other = (if contains data' ''first''
                         then dm_loadNodeFromVariant cv mps
                                (toMap (valueOf data' ''first'')) panels (Suc a)
                         else (None, panels, Suc a));
               node = setFirstChild (fst other) (dm_containerFromVariant cv mps data' a)
           in dm_loadNodeFromVariant cv mps data' panels a = (Some node, snd other)
              \<and> firstChildOf node = map_option (setParent (NodeParent a)) (fst other)
              \<and> secondChildOf node = None)"
    using dm_load_second_unknown [of cv data' mps panels a]
    by (simp add: Let_def firstChildOf_setFirstChild secondChildOf_setFirstChild
        secondChildOf_fromVariant isContainer_fromVariant nodeAddr_fromVariant)
  show ?thesis
    by (rule conjI [OF s0 conjI [OF s1 conjI [OF s2 conjI [OF d0 conjI [OF d1 d2]]]]])
qed

lemma tabDoc_unknown: "stm_unknownTag fallbackConv tabDoc \<and> dm_unknownTag fallbackConv tabDoc"
  by (simp add: stm_unknownTag_def dm_unknownTag_def tabDoc_def valueOf_def valueOr_def)

lemma stm_load_panelDoc:
  "stm_loadNodeFromVariant fallbackConv 150 (panelDoc ident) p a
   = (Some (TreeNode ((newTreeNode a Panel ident p)
                        \<lparr>title := ident, qmlSource := ''qrc:/P.qml''\<rparr>) None None), Suc a)"
  by (simp add: stm_loadNodeFromVariant.simps panelDoc_def valueOf_def valueOr_def
      stm_panelFromVariant_def newTreeNode_def)

lemma dm_load_panelDoc:
  "dm_loadNodeFromVariant fallbackConv 150 (panelDoc ident) panels a
   = (Some (PanelNode a ManagerParent ident 150 ident ''qrc:/P.qml''),
      AList.update ident a panels, Suc a)"
  by (simp add: dm_loadNodeFromVariant.simps panelDoc_def valueOf_def valueOr_def
      dm_panelFromVariant_def newPanelNode_def safeSetValue_def validateMinSize_def
      clampValue_def qBound_def qFuzzyCompare_def)

text \<open>The instance: a \<open>"tab"\<close> node as first child, and in a second pair of documents as
  second child, of a container whose other child is panel \<open>B\<close>. The four equations give
  the loaded nodes in full: the slot of the \<open>"tab"\<close> node is empty and panel \<open>B\<close> is in the
  other one.\<close>

theorem C9_unknown_type_tag_witness:
  "stm_loadNodeFromVariant fallbackConv 150 (splitDoc ''split'' ''firstChild'' ''secondChild'')
     None 0
   = (Some (TreeNode ((newTreeNode 0 Split ''node_1'' None)\<lparr>orientation := Vertical\<rparr>) None
        (Some (TreeNode ((newTreeNode 1 Panel ''B'' (Some 0))
                           \<lparr>title := ''B'', qmlSource := ''qrc:/P.qml''\<rparr>) None None))), 2)
   \<and> stm_loadNodeFromVariant fallbackConv 150 (splitDoc ''split'' ''secondChild'' ''firstChild'')
       None 0
     = (Some (TreeNode ((newTreeNode 0 Split ''node_1'' None)\<lparr>orientation := Vertical\<rparr>)
          (Some (TreeNode ((newTreeNode 1 Panel ''B'' (Some 0))
                             \<lparr>title := ''B'', qmlSource := ''qrc:/P.qml''\<rparr>) None None))
          None), 2)
   \<and> dm_loadNodeFromVariant fallbackConv 150 (splitDoc ''container'' ''first'' ''second'') [] 0
     = (Some (ContainerNode 0 ManagerParent ''node_1'' 150 Vertical 0.5 None
          (Some (PanelNode 1 (NodeParent 0) ''B'' 150 ''B'' ''qrc:/P.qml''))), [(''B'', 1)], 2)
   \<and> dm_loadNodeFromVariant fallbackConv 150 (splitDoc ''container'' ''second'' ''first'') [] 0
     = (Some (ContainerNode 0 ManagerParent ''node_1'' 150 Vertical 0.5
          (Some (PanelNode 1 (NodeParent 0) ''B'' 150 ''B'' ''qrc:/P.qml'')) None),
        [(''B'', 1)], 2)
   \<and> stm_unknownTag fallbackConv tabDoc \<and> dm_unknownTag fallbackConv tabDoc
   \<and> stm_loadNodeFromVariant fallbackConv 150 tabDoc None 0 = (None, 0)
   \<and> dm_loadNodeFromVariant fallbackConv 150 tabDoc [] 0 = (None, [], 0)"
  using C9_unknown_type_tag_leaves_slot_empty
          [of fallbackConv tabDoc 150 None 0 "splitDoc ''split'' ''firstChild'' ''secondChild''"
              tabDoc "[]" "splitDoc ''container'' ''first'' ''second''"]
        C9_unknown_type_tag_leaves_slot_empty
          [of fallbackConv tabDoc 150 None 0 "splitDoc ''split'' ''secondChild'' ''firstChild''"
              tabDoc "[]" "splitDoc ''container'' ''second'' ''first''"]
        tabDoc_unknown
  by (simp add: Let_def splitDoc_def valueOf_def valueOr_def contains_def
      stm_load_panelDoc dm_load_panelDoc stm_splitFromVariant_def dm_containerFromVariant_def
      newTreeNode_def newContainerNode_def safeSetValue_def
      validateMinSize_def validateSplitRatio_def clampValue_def qBound_def qFuzzyCompare_def)

subsection \<open>Clamped ranges\<close>

lemma validateSplitRatio_range:
  "0.1 \<le> validateSplitRatio r \<and> validateSplitRatio r \<le> 0.9"
  by (simp add: validateSplitRatio_def clampValue_def qBound_def)

lemma validateMinSize_range: "50 \<le> validateMinSize r \<and> validateMinSize r \<le> 1000"
  by (simp add: validateMinSize_def clampValue_def qBound_def)

lemma validateSplitRatio_nearest:
  "validateSplitRatio r = (if r < 0.1 then 0.1 else if 0.9 < r then 0.9 else r)"
  by (simp add: validateSplitRatio_def clampValue_def qBound_def)

lemma validateMinSize_nearest:
  "validateMinSize r = (if r < 50 then 50 else if 1000 < r then 1000 else r)"
  by (simp add: validateMinSize_def clampValue_def qBound_def)

text \<open>
  C4. The claim is that no operation, loading included, leaves a split ratio outside
  [0.1, 0.9] or a minimum size outside [50, 1000]. \<open>SplitTreeModel::loadNodeFromVariant\<close>
  stores \<open>splitRatio\<close> and \<open>minSize\<close> as the document gives them, and
  \<open>SplitTreeModel::loadLayout\<close> does the same with \<open>minPanelSize\<close>: loading the document
  below into a fresh model succeeds and leaves a root with split ratio 5 and minimum size
  10, and a minimum panel size of 5. (\<open>setData\<close> and \<open>setMinPanelSize\<close> of the same class
  and the loader of \<open>DockingManager\<close> clamp with \<open>qBound\<close>.)
\<close>

theorem C4_stm_load_stores_out_of_range_values:
  "stm_loadLayout fallbackConv
     [(''version'', VString ''2.0''), (''minPanelSize'', VDouble 5),
      (''root'', VMap [(''type'', VString ''split''), (''id'', VString ''node_1''),
                       (''orientation'', VString ''horizontal''),
                       (''splitRatio'', VDouble 5), (''minSize'', VDouble 10)])]
     stm_init
   = (True, \<lparr>m_root = Some (TreeNode ((newTreeNode 0 Split ''node_1'' None)
                                         \<lparr>splitRatio := 5, minSize := 10\<rparr>) None None),
             m_panelCount = 0, m_minPanelSize = 5, m_nodeIdCounter = 0, nextAddr = 1\<rparr>)"
  by (simp add: stm_loadLayout_def stm_init_def stm_loadNodeFromVariant.simps valueOf_def
      valueOr_def contains_def stm_splitFromVariant_def newTreeNode_def updatePanelCount_def
      noSlots_def Let_def)

subsection \<open>Pointers into a well-formed tree\<close>

lemma lookupNode_None: "x \<notin> set (addrs t) \<Longrightarrow> lookupNode x t = None"
  by (induction x t rule: lookupNode.induct) auto

lemma lookupNode_Some:
  "lookupNode x t = Some n \<Longrightarrow> addr (attrs n) = x \<and> set (addrs (Some n)) \<subseteq> set (addrs t)"
  by (induction x t rule: lookupNode.induct) (auto split: if_splits option.splits)

lemma lookupNode_root: "addrOf t = Some x \<Longrightarrow> lookupNode x t = t"
  by (cases t rule: addrs.cases) (auto simp: addrOf_def)

lemma updateNode_absent: "lookupNode x t = None \<Longrightarrow> updateNode x g t = t"
  by (induction x g t rule: updateNode.induct) (auto split: if_splits option.splits)


lemma parent_in_tree:
  "parentsOk q t \<Longrightarrow> distinct (addrs t) \<Longrightarrow> lookupNode x t = Some n \<Longrightarrow> addrOf t \<noteq> Some x \<Longrightarrow>
   \<exists>pa P. parent (attrs n) = Some pa \<and> lookupNode pa t = Some P
      \<and> (firstChild P = Some n \<or> (secondChild P = Some n \<and> addrOf (firstChild P) \<noteq> Some x))"
proof (induction x t arbitrary: q rule: lookupNode.induct)
  case (1 p)
  then show ?case by simp
next
  case (2 p a f s)
  have ne: "addr a \<noteq> p" using 2(6) by (simp add: addrOf_def)
  have df: "distinct (addrs f)" and ds: "distinct (addrs s)"
    and af: "addr a \<notin> set (addrs f)" and as: "addr a \<notin> set (addrs s)"
    and disj: "set (addrs f) \<inter> set (addrs s) = {}"
    using 2(4) by auto
  have pf: "parentsOk (Some (addr a)) f" and ps: "parentsOk (Some (addr a)) s"
    using 2(3) by auto
  show ?case
  proof (cases "lookupNode p f")
    case (Some n')
    then have n': "n' = n" using 2(5) ne by simp
    show ?thesis
    proof (cases "addrOf f = Some p")
      case True
      then have "f = Some n" using Some n' by (simp add: lookupNode_root)
      moreover from this pf have "parent (attrs n) = Some (addr a)"
        by (cases n) auto
      ultimately show ?thesis
        by (intro exI[of _ "addr a"] exI[of _ "TreeNode a f s"]) simp
    next
      case False
      from 2(1)[OF ne pf df _ False] Some n'
      obtain pa P where P: "parent (attrs n) = Some pa" "lookupNode pa f = Some P"
        "firstChild P = Some n \<or> (secondChild P = Some n \<and> addrOf (firstChild P) \<noteq> Some p)"
        by auto
      have "pa \<in> set (addrs f)" using P(2) lookupNode_None by force
      then have "pa \<noteq> addr a" using af by auto
      then show ?thesis using P by auto
    qed
  next
    case None
    then have s: "lookupNode p s = Some n" using 2(5) ne by simp
    show ?thesis
    proof (cases "addrOf s = Some p")
      case True
      then have "s = Some n" using s by (simp add: lookupNode_root)
      moreover from this ps have "parent (attrs n) = Some (addr a)"
        by (cases n) auto
      moreover have "addrOf f \<noteq> Some p"
      proof
        assume h: "addrOf f = Some p"
        then have "lookupNode p f = f" by (rule lookupNode_root)
        with None have "f = None" by simp
        with h show False by (simp add: addrOf_def)
      qed
      ultimately show ?thesis
        by (intro exI[of _ "addr a"] exI[of _ "TreeNode a f s"]) simp
    next
      case False
      from 2(2)[OF ne None ps ds s False]
      obtain pa P where P: "parent (attrs n) = Some pa" "lookupNode pa s = Some P"
        "firstChild P = Some n \<or> (secondChild P = Some n \<and> addrOf (firstChild P) \<noteq> Some p)"
        by auto
      have pas: "pa \<in> set (addrs s)" using P(2) lookupNode_None by force
      then have "pa \<noteq> addr a" using as by auto
      moreover have "lookupNode pa f = None"
        using pas disj by (auto intro: lookupNode_None)
      ultimately show ?thesis using P by auto
    qed
  qed
qed





lemma stm_insertPanelAt_returned:
  "stm_insertPanelAt panel target zone m = Some (b, m') \<Longrightarrow>
   \<not> b \<and> stm_insertPanelAt_rebuild panel target zone m = Some (False, m')"
  by (auto simp: stm_insertPanelAt_def split: option.splits if_splits)

lemma dm_lookupNode_None: "x \<notin> set (dm_addrs t) \<Longrightarrow> dm_lookupNode x t = None"
  by (induction x t rule: dm_lookupNode.induct) auto

lemma dm_lookupNode_Some:
  "dm_lookupNode x t = Some n \<Longrightarrow> nodeAddr n = x \<and> set (dm_addrs (Some n)) \<subseteq> set (dm_addrs t)"
  by (induction x t rule: dm_lookupNode.induct) (auto split: if_splits option.splits)

lemma dm_lookupNode_root: "ptr t = Some x \<Longrightarrow> dm_lookupNode x t = t"
  by (cases t rule: dm_addrs.cases) (auto simp: ptr_def)

lemma dm_updateNode_absent: "dm_lookupNode x t = None \<Longrightarrow> dm_updateNode x g t = t"
  by (induction x g t rule: dm_updateNode.induct) (auto split: if_splits option.splits)


lemma dm_parent_in_tree:
  "dm_parentsOk t \<Longrightarrow> distinct (dm_addrs t) \<Longrightarrow> dm_lookupNode x t = Some n \<Longrightarrow> ptr t \<noteq> Some x \<Longrightarrow>
   \<exists>pa P. qparent n = NodeParent pa \<and> dm_lookupNode pa t = Some P \<and> isContainer P
      \<and> (firstChildOf P = Some n \<or> (secondChildOf P = Some n \<and> ptr (firstChildOf P) \<noteq> Some x))"
proof (induction x t rule: dm_lookupNode.induct)
  case (1 x)
  then show ?case by simp
next
  case (2 x a p i ms t src)
  then show ?case by (auto simp: ptr_def split: if_splits)
next
  case (3 x a p i ms ori r f s)
  let ?t = "ContainerNode a p i ms ori r f s"
  have ne: "a \<noteq> x" using 3(6) by (simp add: ptr_def)
  have df: "distinct (dm_addrs f)" and ds: "distinct (dm_addrs s)"
    and af: "a \<notin> set (dm_addrs f)" and as: "a \<notin> set (dm_addrs s)"
    and disj: "set (dm_addrs f) \<inter> set (dm_addrs s) = {}"
    using 3(4) by auto
  have pf: "dm_parentsOk f" and ps: "dm_parentsOk s" and cf: "childOf a f" and cs: "childOf a s"
    using 3(3) by auto
  show ?case
  proof (cases "dm_lookupNode x f")
    case (Some n')
    then have n': "n' = n" using 3(5) ne by simp
    show ?thesis
    proof (cases "ptr f = Some x")
      case True
      then have "f = Some n" using Some n' by (simp add: dm_lookupNode_root)
      moreover from this cf have "qparent n = NodeParent a" by simp
      ultimately show ?thesis
        by (intro exI[of _ a] exI[of _ ?t]) simp
    next
      case False
      from 3(1)[OF ne pf df _ False] Some n'
      obtain pa P where P: "qparent n = NodeParent pa" "dm_lookupNode pa f = Some P" "isContainer P"
        "firstChildOf P = Some n \<or> (secondChildOf P = Some n \<and> ptr (firstChildOf P) \<noteq> Some x)"
        by auto
      have "pa \<in> set (dm_addrs f)" using P(2) dm_lookupNode_None by force
      then have "pa \<noteq> a" using af by auto
      then show ?thesis using P by auto
    qed
  next
    case None
    then have s: "dm_lookupNode x s = Some n" using 3(5) ne by simp
    show ?thesis
    proof (cases "ptr s = Some x")
      case True
      then have "s = Some n" using s by (simp add: dm_lookupNode_root)
      moreover from this cs have "qparent n = NodeParent a" by simp
      moreover have "ptr f \<noteq> Some x"
      proof
        assume h: "ptr f = Some x"
        then have "dm_lookupNode x f = f" by (rule dm_lookupNode_root)
        with None have "f = None" by simp
        with h show False by (simp add: ptr_def)
      qed
      ultimately show ?thesis
        by (intro exI[of _ a] exI[of _ ?t]) simp
    next
      case False
      from 3(2)[OF ne None ps ds s False]
      obtain pa P where P: "qparent n = NodeParent pa" "dm_lookupNode pa s = Some P" "isContainer P"
        "firstChildOf P = Some n \<or> (secondChildOf P = Some n \<and> ptr (firstChildOf P) \<noteq> Some x)"
        by auto
      have pas: "pa \<in> set (dm_addrs s)" using P(2) dm_lookupNode_None by force
      then have "pa \<noteq> a" using as by auto
      moreover have "dm_lookupNode pa f = None"
        using pas disj by (auto intro: dm_lookupNode_None)
      ultimately show ?thesis using P by auto
    qed
  qed
qed



subsection \<open>The example trees\<close>

lemma nodeName_1: "nodeName (Suc 0) = ''node_1''"
  by (simp add: nodeName_def decimal.simps digit_def)

lemma nodeName_2: "nodeName (Suc (Suc 0)) = ''node_2''"
  by (simp add: nodeName_def decimal.simps digit_def)

lemmas stm_eval = stm_insertPanelAt_def stm_insertPanelAt_rebuild_def stm_addPanel_def stm_addPanelAt_def createPanelNode_def
  createSplitNode_def newTreeNode_def setParentPtr_def addrOf_def updatePanelCount_def noSlots_def
  Let_def Left_def Right_def Top_def Bottom_def Center_def nodeName_1 nodeName_2

lemmas dm_eval = dm_insertPanelAt_def dm_addPanel_def dm_addPanelAt_def dm_createPanelNode_def
  newPanelNode_def newContainerNode_def registerPanel_def unregisterPanel_def ptr_def deref_def
  store_def safeSetValue_def validateMinSize_def validateSplitRatio_def clampValue_def qBound_def
  qFuzzyCompare_def Let_def Left_def Right_def Top_def Bottom_def Center_def nodeName_1 nodeName_2

lemma scenario_A_stm: "stm_addPanel ''A'' ''a'' ''qrc:/A.qml'' stm_init = Some (True, stm_A)"
  by (simp add: stm_eval stm_init_def stm_A_def)

lemma scenario_B_stm:
  "stm_insertPanelAt_rebuild (Some (createPanelNode 1 ''B'' ''b'' ''qrc:/B.qml'' stm_A))
     (findNodeById (m_root stm_A) ''A'') Right stm_A = Some (True, stm_AB)
   \<and> stm_addPanelAt ''B'' ''b'' ''qrc:/B.qml'' ''A'' Right stm_A = None"
  by (simp add: stm_eval stm_init_def stm_A_def stm_AB_def)

lemma scenario_A_dm: "dm_addPanel ''A'' ''a'' ''qrc:/A.qml'' dm_init = Some (True, dm_A)"
  by (simp add: dm_eval dm_init_def dm_A_def)

lemma scenario_B_dm:
  "dm_addPanelAt ''B'' ''b'' ''qrc:/B.qml'' ''A'' Right dm_A = Some (True, dm_AB)"
  by (simp add: dm_eval dm_init_def dm_A_def dm_AB_def)




subsection \<open>Inserting: the new Split\<close>



subsection \<open>Inserting: unresolved target\<close>








subsection \<open>Inserting: duplicate identifier\<close>

lemma stm_duplicate_rejected:
  "findNodeById (m_root m) panelId \<noteq> None \<Longrightarrow>
   stm_addPanelAt panelId ttl src targetId zone m = Some (False, m)
   \<and> stm_addPanel panelId ttl src m = Some (False, m)"
  by (simp add: stm_addPanelAt_def stm_addPanel_def)

text \<open>
  C7. \<open>SplitTreeModel\<close> rejects an identifier that is already in the tree before it touches
  anything (lemma \<open>stm_duplicate_rejected\<close>). \<open>DockingManager::addPanelAt\<close> has no such
  check: called with the identifier \<open>"A"\<close> of the panel that is already in the tree and in
  the registry, it returns true, puts a second panel \<open>"A"\<close> into the tree and overwrites the
  registry entry, which pointed to the first panel (address 0), with the address of the
  second.
\<close>

theorem C7_dm_duplicate_identifier_accepted:
  "findNode (dm_root dm_A) ''A''
     = Some (PanelNode 0 ManagerParent ''A'' 150 ''a'' ''qrc:/A.qml'')
   \<and> map_of (dm_panels dm_A) ''A'' = Some 0
   \<and> dm_addPanelAt ''A'' ''dup'' ''qrc:/D.qml'' ''A'' Right dm_A
     = Some (True,
         \<lparr>dm_root = Some (ContainerNode 2 ManagerParent ''node_1'' 150 Vertical 0.5
             (Some (PanelNode 0 (NodeParent 2) ''A'' 150 ''a'' ''qrc:/A.qml''))
             (Some (PanelNode 1 (NodeParent 2) ''A'' 150 ''dup'' ''qrc:/D.qml''))),
          dm_panels = [(''A'', 1)], dm_minPanelSize = 150, dm_nodeIdCounter = 1,
          currentlyRemoving = [], dm_nextAddr = 3\<rparr>)"
  by (simp add: dm_eval dm_A_def)

subsection \<open>The panel count\<close>

lemma countOk_update: "stm_countOk (updatePanelCount noSlots m)"
  by (simp add: stm_countOk_def updatePanelCount_def noSlots_def Let_def)

lemma countOk_counter: "stm_countOk (m\<lparr>m_nodeIdCounter := n\<rparr>) = stm_countOk m"
  by (simp add: stm_countOk_def)

lemma stm_insertPanelAt_rebuild_countOk:
  "stm_countOk m \<Longrightarrow> stm_insertPanelAt_rebuild panel target zone m = Some (b, m') \<Longrightarrow>
   stm_countOk m'"
  by (auto simp: stm_insertPanelAt_rebuild_def Let_def countOk_update countOk_counter
      split: option.splits if_splits)

lemma stm_insertPanelAt_countOk:
  "stm_countOk m \<Longrightarrow> stm_insertPanelAt panel target zone m = Some (b, m') \<Longrightarrow> stm_countOk m'"
  using stm_insertPanelAt_returned [of panel target zone m b m']
    stm_insertPanelAt_rebuild_countOk [of m panel target zone False m']
  by blast

lemma stm_addPanel_countOk:
  "stm_countOk m \<Longrightarrow> stm_addPanel panelId ttl src m = Some (b, m') \<Longrightarrow> stm_countOk m'"
  by (auto simp: stm_addPanel_def Let_def countOk_update dest: stm_insertPanelAt_countOk
      split: if_splits)

lemma stm_addPanelAt_countOk:
  "stm_countOk m \<Longrightarrow> stm_addPanelAt panelId ttl src targetId zone m = Some (b, m') \<Longrightarrow>
   stm_countOk m'"
  by (auto simp: stm_addPanelAt_def Let_def countOk_update dest: stm_insertPanelAt_countOk
      split: if_splits)

lemma stm_removed_countOk: "stm_countOk (stm_removed noSlots panelId m)"
  by (simp add: stm_removed_def countOk_update noSlots_def [of LayoutChanged]
      noSlots_def [of "PanelRemoved panelId"])

lemma stm_removePanel_countOk:
  "stm_countOk m \<Longrightarrow> stm_removePanel noSlots panelId m = Some (b, m') \<Longrightarrow> stm_countOk m'"
  unfolding stm_removePanel_def Let_def
  by (auto simp: countOk_update stm_removed_countOk
        noSlots_def [of ModelAboutToBeReset] noSlots_def [of ModelReset]
        noSlots_def [of RootChanged] noSlots_def [of LayoutChanged]
        noSlots_def [of "PanelRemoved panelId"]
      split: option.splits if_splits prod.splits)

lemma stm_loadLayout_countOk:
  "stm_countOk m \<Longrightarrow> stm_loadLayout cv layout m = (b, m') \<Longrightarrow> stm_countOk m'"
  by (auto simp: stm_loadLayout_def Let_def countOk_update split: if_splits)

lemma stm_clear_countOk: "stm_countOk m \<Longrightarrow> stm_countOk (stm_clear m)"
  by (simp add: stm_clear_def countOk_update)

text \<open>
  C10. In \<open>SplitTreeModel\<close> every operation recounts the tree, and the count agrees with the
  tree after each of them (lemmas \<open>stm_*_countOk\<close>). In \<open>DockingManager\<close> \<open>panelCount()\<close> is
  the size of \<open>m_panels\<close>, and \<open>addPanelAt\<close> registers the new panel before \<open>insertPanelAt\<close>
  has accepted the direction: with direction \<open>Center\<close> on the tree of panel \<open>A\<close> the call
  returns false and leaves the tree alone, but \<open>"B"\<close> stays registered (to a panel that has
  been destroyed), so the count is 2 over a tree with one panel.
\<close>

theorem C10_dm_failed_insert_count_diverges:
  "dm_addPanelAt ''B'' ''b'' ''qrc:/B.qml'' ''A'' Center dm_A
     = Some (False, dm_A\<lparr>dm_panels := [(''A'', 0), (''B'', 1)], dm_nextAddr := 2\<rparr>)
   \<and> panelCount (dm_A\<lparr>dm_panels := [(''A'', 0), (''B'', 1)], dm_nextAddr := 2\<rparr>) = 2
   \<and> dm_countPanels (dm_root (dm_A\<lparr>dm_panels := [(''A'', 0), (''B'', 1)], dm_nextAddr := 2\<rparr>))
     = 1"
  by (simp add: dm_eval dm_A_def panelCount_def)

subsection \<open>Removing: the sibling takes the place of the parent\<close>

lemma lookupNode_distinct:
  "distinct (addrs t) \<Longrightarrow> lookupNode x t = Some n \<Longrightarrow> distinct (addrs (Some n))"
  by (induction x t rule: lookupNode.induct) (auto split: if_splits option.splits)

lemma lookupNode_mem: "lookupNode x t = Some n \<Longrightarrow> x \<in> set (addrs t)"
  using lookupNode_None by force

lemma findNodeById_lookup:
  "distinct (addrs t) \<Longrightarrow> findNodeById t i = Some n \<Longrightarrow> lookupNode (addr (attrs n)) t = Some n"
proof (induction t i rule: findNodeById.induct)
  case (1 i)
  then show ?case by simp
next
  case (2 a f s i)
  show ?case
  proof (cases "nid a = i")
    case True
    then show ?thesis using 2(4) by (auto split: if_splits)
  next
    case False
    then have ne: "i \<noteq> []" and sp: "ntype a = Split" using 2(4) by (auto split: if_splits)
    have df: "distinct (addrs f)" and ds: "distinct (addrs s)"
      and af: "addr a \<notin> set (addrs f)" and as: "addr a \<notin> set (addrs s)"
      and disj: "set (addrs f) \<inter> set (addrs s) = {}"
      using 2(3) by auto
    show ?thesis
    proof (cases "findNodeById f i")
      case (Some n')
      then have "n' = n" using 2(4) ne False sp by simp
      then have l: "lookupNode (addr (attrs n)) f = Some n"
        using 2(1)[OF ne False sp df] Some by simp
      then have "addr (attrs n) \<noteq> addr a" using af lookupNode_mem by metis
      then show ?thesis using l by simp
    next
      case None
      then have fs: "findNodeById s i = Some n" using 2(4) ne False sp by simp
      have l: "lookupNode (addr (attrs n)) s = Some n"
        using 2(2)[OF ne False sp None ds fs] .
      then have m: "addr (attrs n) \<in> set (addrs s)" by (rule lookupNode_mem)
      then have "addr (attrs n) \<noteq> addr a" using as by metis
      moreover have "lookupNode (addr (attrs n)) f = None"
        using m disj by (auto intro: lookupNode_None)
      ultimately show ?thesis using l by simp
    qed
  qed
qed

lemma addrOf_updateNode:
  "(\<And>n. addr (attrs (h n)) = addr (attrs n)) \<Longrightarrow> addrOf (updateNode x h t) = addrOf t"
  by (cases t rule: addrs.cases) (auto simp: addrOf_def)

lemma updateNode_Some: "updateNode x h (Some n) \<noteq> None"
  by (cases n) auto

lemma lookupNode_updateNode_inside:
  assumes "distinct (addrs t)" and "lookupNode g t = Some G" and "pa \<in> set (addrs (Some G))"
    and "pa \<noteq> g"
  shows "lookupNode g (updateNode pa h t) = updateNode pa h (Some G)"
  using assms
proof (induction g t rule: lookupNode.induct)
  case (1 p)
  then show ?case by simp
next
  case (2 p a f s)
  have df: "distinct (addrs f)" and ds: "distinct (addrs s)"
    and af: "addr a \<notin> set (addrs f)" and as: "addr a \<notin> set (addrs s)"
    and disj: "set (addrs f) \<inter> set (addrs s) = {}"
    using 2(3) by auto
  show ?case
  proof (cases "addr a = p")
    case True
    then show ?thesis using 2(4,6) by auto
  next
    case False
    show ?thesis
    proof (cases "lookupNode p f")
      case (Some G')
      then have G': "G' = G" using 2(4) False by simp
      have sub: "set (addrs (Some G)) \<subseteq> set (addrs f)"
        using lookupNode_Some Some G' by blast
      then have "addr a \<noteq> pa" using af 2(5) by auto
      moreover have "lookupNode p (updateNode pa h f) = updateNode pa h (Some G)"
        using 2(1)[OF False df _ 2(5) 2(6)] Some G' by simp
      ultimately show ?thesis
        using False updateNode_Some [of pa h G] by (auto split: option.splits)
    next
      case None
      then have s: "lookupNode p s = Some G" using 2(4) False by simp
      have sub: "set (addrs (Some G)) \<subseteq> set (addrs s)"
        using lookupNode_Some s by blast
      then have pas: "pa \<in> set (addrs s)" using 2(5) by auto
      then have "addr a \<noteq> pa" using as by auto
      moreover have "updateNode pa h f = f"
        using pas disj by (auto intro!: updateNode_absent lookupNode_None)
      moreover have "lookupNode p (updateNode pa h s) = updateNode pa h (Some G)"
        using 2(2)[OF False None ds s 2(5) 2(6)] .
      ultimately show ?thesis
        using False None by simp
    qed
  qed
qed

lemma updateNode_inside:
  assumes "distinct (addrs t)" and "lookupNode g t = Some G" and "pa \<in> set (addrs (Some G))"
    and "pa \<noteq> g"
  shows "updateNode pa h t = updateNode g (\<lambda>old. the (updateNode pa h (Some G))) t"
  using assms
proof (induction g t rule: lookupNode.induct)
  case (1 p)
  then show ?case by simp
next
  case (2 p a f s)
  have df: "distinct (addrs f)" and ds: "distinct (addrs s)"
    and af: "addr a \<notin> set (addrs f)" and as: "addr a \<notin> set (addrs s)"
    and disj: "set (addrs f) \<inter> set (addrs s) = {}"
    using 2(3) by auto
  show ?case
  proof (cases "addr a = p")
    case True
    then show ?thesis using 2(4,6) by auto
  next
    case False
    show ?thesis
    proof (cases "lookupNode p f")
      case (Some G')
      then have G': "G' = G" using 2(4) False by simp
      have sub: "set (addrs (Some G)) \<subseteq> set (addrs f)"
        using lookupNode_Some Some G' by blast
      then have paf: "pa \<in> set (addrs f)" using 2(5) by auto
      then have "addr a \<noteq> pa" using af by auto
      moreover have "updateNode pa h s = s"
        using paf disj by (auto intro!: updateNode_absent lookupNode_None)
      moreover have "p \<in> set (addrs f)" using Some by (rule lookupNode_mem)
      then have "updateNode p (\<lambda>old. the (updateNode pa h (Some G))) s = s"
        using disj by (auto intro!: updateNode_absent lookupNode_None)
      moreover have "updateNode pa h f = updateNode p (\<lambda>old. the (updateNode pa h (Some G))) f"
        using 2(1)[OF False df _ 2(5) 2(6)] Some G' by simp
      ultimately show ?thesis
        using False by simp
    next
      case None
      then have s: "lookupNode p s = Some G" using 2(4) False by simp
      have sub: "set (addrs (Some G)) \<subseteq> set (addrs s)"
        using lookupNode_Some s by blast
      then have pas: "pa \<in> set (addrs s)" using 2(5) by auto
      then have "addr a \<noteq> pa" using as by auto
      moreover have "updateNode pa h f = f"
        using pas disj by (auto intro!: updateNode_absent lookupNode_None)
      moreover have "updateNode p (\<lambda>old. the (updateNode pa h (Some G))) f = f"
        using None by (rule updateNode_absent)
      moreover have "updateNode pa h s = updateNode p (\<lambda>old. the (updateNode pa h (Some G))) s"
        using 2(2)[OF False None ds s 2(5) 2(6)] .
      ultimately show ?thesis
        using False by simp
    qed
  qed
qed

lemma updateNode_overwrite:
  assumes "distinct (addrs t)" and "lookupNode g t = Some G" and "pa \<in> set (addrs (Some G))"
    and "pa \<noteq> g"
  shows "updateNode g (\<lambda>old. n) (updateNode pa h t) = updateNode g (\<lambda>old. n) t"
  using assms
proof (induction g t rule: lookupNode.induct)
  case (1 p)
  then show ?case by simp
next
  case (2 p a f s)
  have df: "distinct (addrs f)" and ds: "distinct (addrs s)"
    and af: "addr a \<notin> set (addrs f)" and as: "addr a \<notin> set (addrs s)"
    and disj: "set (addrs f) \<inter> set (addrs s) = {}"
    using 2(3) by auto
  show ?case
  proof (cases "addr a = p")
    case True
    then show ?thesis using 2(4,6) by auto
  next
    case False
    show ?thesis
    proof (cases "lookupNode p f")
      case (Some G')
      then have G': "G' = G" using 2(4) False by simp
      have sub: "set (addrs (Some G)) \<subseteq> set (addrs f)"
        using lookupNode_Some Some G' by blast
      then have paf: "pa \<in> set (addrs f)" using 2(5) by auto
      then have "addr a \<noteq> pa" using af by auto
      moreover have "updateNode pa h s = s"
        using paf disj by (auto intro!: updateNode_absent lookupNode_None)
      moreover have "updateNode p (\<lambda>old. n) (updateNode pa h f) = updateNode p (\<lambda>old. n) f"
        using 2(1)[OF False df _ 2(5) 2(6)] Some G' by simp
      ultimately show ?thesis
        using False by simp
    next
      case None
      then have s: "lookupNode p s = Some G" using 2(4) False by simp
      have sub: "set (addrs (Some G)) \<subseteq> set (addrs s)"
        using lookupNode_Some s by blast
      then have pas: "pa \<in> set (addrs s)" using 2(5) by auto
      then have "addr a \<noteq> pa" using as by auto
      moreover have "updateNode pa h f = f"
        using pas disj by (auto intro!: updateNode_absent lookupNode_None)
      moreover have "updateNode p (\<lambda>old. n) (updateNode pa h s) = updateNode p (\<lambda>old. n) s"
        using 2(2)[OF False None ds s 2(5) 2(6)] .
      ultimately show ?thesis
        using False by simp
    qed
  qed
qed


lemma stm_removed_noSlots: "stm_removed noSlots panelId m = updatePanelCount noSlots m"
  by (simp add: stm_removed_def noSlots_def [of LayoutChanged] noSlots_def [of "PanelRemoved panelId"])

lemma stm_remove_promotes:
  assumes wf: "stm_wf m"
    and found: "findNodeById (m_root m) panelId = Some leaf" and panel: "ntype (attrs leaf) = Panel"
    and par: "parent (attrs leaf) = Some pa" "lookupNode pa (m_root m) = Some P"
      "ntype (attrs P) = Split"
    and sib: "(firstChild P = Some leaf \<and> secondChild P = Some S)
              \<or> (firstChild P = Some S \<and> secondChild P = Some leaf)"
  shows "stm_removePanel noSlots panelId m
         = Some (True, updatePanelCount noSlots
             (m\<lparr>m_root := (if addrOf (m_root m) = Some pa then Some (setParentPtr None S)
                            else updateNode pa (\<lambda>old. setParentPtr (parent (attrs P)) S)
                                   (m_root m))\<rparr>))"
proof -
  let ?strip = "\<lambda>n. TreeNode (attrs n) None None"
  have d: "distinct (addrs (m_root m))" and pk: "parentsOk None (m_root m)"
    using wf by (auto simp: stm_wf_def)
  have leafIn: "lookupNode (addr (attrs leaf)) (m_root m) = Some leaf"
    using d found by (rule findNodeById_lookup)
  have notRoot: "Some (addr (attrs leaf)) \<noteq> addrOf (m_root m)"
  proof
    assume "Some (addr (attrs leaf)) = addrOf (m_root m)"
    then have "m_root m = Some leaf"
      using leafIn lookupNode_root [of "m_root m" "addr (attrs leaf)"] by simp
    then have "parent (attrs leaf) = None"
      using pk by (cases leaf) simp
    then show False using par(1) by simp
  qed
  have dP: "distinct (addrs (Some P))"
    using d par(2) by (rule lookupNode_distinct)
  have paP: "addr (attrs P) = pa"
    using lookupNode_Some [OF par(2)] by simp
  have sibling: "(if addrOf (firstChild P) = Some (addr (attrs leaf))
                  then secondChild P else firstChild P) = Some S"
    using sib dP by (cases P; cases leaf; cases S) (auto simp: addrOf_def)
  have strip_addr: "\<And>n. addr (attrs (?strip n)) = addr (attrs n)"
    by simp
  have root1: "addrOf (updateNode pa ?strip (m_root m)) = addrOf (m_root m)"
    by (rule addrOf_updateNode) simp
  show ?thesis
  proof (cases "addrOf (m_root m) = Some pa")
    case True
    then show ?thesis
      using found panel notRoot par sibling root1
      by (simp add: stm_removePanel_def Let_def stm_removed_noSlots
          noSlots_def [of ModelAboutToBeReset] noSlots_def [of ModelReset])
  next
    case False
    from parent_in_tree [OF pk d par(2) False]
    obtain g G where G: "parent (attrs P) = Some g" "lookupNode g (m_root m) = Some G"
      "firstChild G = Some P \<or> (secondChild G = Some P \<and> addrOf (firstChild G) \<noteq> Some pa)"
      by blast
    have dG: "distinct (addrs (Some G))"
      using d G(2) by (rule lookupNode_distinct)
    have gG: "addr (attrs G) = g"
      using lookupNode_Some [OF G(2)] by simp
    have paG: "pa \<in> set (addrs (Some G))" and pag: "pa \<noteq> g"
      using G(3) dG gG paP by (cases G; cases P; auto)+
    have l1: "lookupNode g (updateNode pa ?strip (m_root m)) = updateNode pa ?strip (Some G)"
      using d G(2) paG pag by (rule lookupNode_updateNode_inside)
    let ?S' = "setParentPtr (Some g) S"
    obtain G1 where G1: "updateNode pa ?strip (Some G) = Some G1"
      using updateNode_Some [of pa ?strip G] by auto
    let ?G2 = "if addrOf (firstChild G1) = Some pa
               then TreeNode (attrs G1) (Some ?S') (secondChild G1)
               else TreeNode (attrs G1) (firstChild G1) (Some ?S')"
    have G2: "?G2 = the (updateNode pa (\<lambda>old. ?S') (Some G))"
    proof (cases G)
      case (TreeNode ga gf gs)
      show ?thesis
      proof (cases "gf = Some P")
        case True
        then have "pa \<notin> set (addrs gs)"
          using dG TreeNode paP by (cases P) auto
        then have "updateNode pa h gs = gs" for h
          by (auto intro!: updateNode_absent lookupNode_None)
        then show ?thesis
          using TreeNode True paP pag gG G1 by (cases P) (auto simp: addrOf_def)
      next
        case False
        then have gs: "gs = Some P" and nf: "addrOf gf \<noteq> Some pa"
          using G(3) TreeNode by auto
        have "pa \<notin> set (addrs gf)"
          using dG TreeNode paP gs by (cases P) auto
        then have "updateNode pa h gf = gf" for h
          by (auto intro!: updateNode_absent lookupNode_None)
        then show ?thesis
          using TreeNode gs nf paP pag gG G1 by (cases P) (auto simp: addrOf_def)
      qed
    qed
    have "updateNode g (\<lambda>old. ?G2) (updateNode pa ?strip (m_root m))
          = updateNode g (\<lambda>old. ?G2) (m_root m)"
      using d G(2) paG pag by (rule updateNode_overwrite)
    also have "\<dots> = updateNode pa (\<lambda>old. ?S') (m_root m)"
      using updateNode_inside [OF d G(2) paG pag, of "\<lambda>old. ?S'"] G2 by simp
    finally have final: "updateNode g (\<lambda>old. ?G2) (updateNode pa ?strip (m_root m))
          = updateNode pa (\<lambda>old. ?S') (m_root m)" .
    show ?thesis
      using False found panel notRoot par sibling root1 G(1) l1 G1 final
      by (simp add: stm_removePanel_def Let_def stm_removed_noSlots
          noSlots_def [of ModelAboutToBeReset] noSlots_def [of ModelReset])
  qed
qed


lemma dm_lookupNode_distinct:
  "distinct (dm_addrs t) \<Longrightarrow> dm_lookupNode x t = Some n \<Longrightarrow> distinct (dm_addrs (Some n))"
  by (induction x t rule: dm_lookupNode.induct) (auto split: if_splits option.splits)

lemma dm_lookupNode_mem: "dm_lookupNode x t = Some n \<Longrightarrow> x \<in> set (dm_addrs t)"
  using dm_lookupNode_None by force

lemma dm_updateNode_Some: "dm_updateNode x h (Some n) \<noteq> None"
  by (cases n) auto

lemma ptr_dm_updateNode:
  "(\<And>n. nodeAddr (h n) = nodeAddr n) \<Longrightarrow> ptr (dm_updateNode x h t) = ptr t"
  by (cases t rule: dm_addrs.cases) (auto simp: ptr_def)

lemma dm_lookupNode_updateNode_same:
  "dm_lookupNode x t \<noteq> None \<Longrightarrow> nodeAddr n = x \<Longrightarrow>
   dm_lookupNode x (dm_updateNode x (\<lambda>old. n) t) = Some n"
proof (induction x "\<lambda>old::DockingNode. n" t rule: dm_updateNode.induct)
  case (1 x)
  then show ?case by simp
next
  case (2 x a p i ms t src)
  then show ?case by (cases n) (auto split: if_splits)
next
  case (3 x a p i ms ori r f s)
  show ?case
  proof (cases "a = x")
    case True
    then show ?thesis using 3(4) by (cases n) auto
  next
    case False
    show ?thesis
    proof (cases "dm_lookupNode x f")
      case None
      then have "dm_updateNode x (\<lambda>old. n) f = f" by (rule dm_updateNode_absent)
      moreover have "dm_lookupNode x (dm_updateNode x (\<lambda>old. n) s) = Some n"
        using 3(2)[OF False _ 3(4)] 3(3) None False by simp
      ultimately show ?thesis using False None by simp
    next
      case (Some y)
      then have "dm_lookupNode x (dm_updateNode x (\<lambda>old. n) f) = Some n"
        using 3(1)[OF False _ 3(4)] by simp
      then show ?thesis using False by simp
    qed
  qed
qed

lemma dm_lookupNode_updateNode_inside:
  assumes "distinct (dm_addrs t)" and "dm_lookupNode g t = Some G"
    and "pa \<in> set (dm_addrs (Some G))" and "pa \<noteq> g"
  shows "dm_lookupNode g (dm_updateNode pa h t) = dm_updateNode pa h (Some G)"
  using assms
proof (induction g t rule: dm_lookupNode.induct)
  case (1 x)
  then show ?case by simp
next
  case (2 x a p i ms t src)
  then show ?case by (auto split: if_splits)
next
  case (3 x a p i ms ori r f s)
  have df: "distinct (dm_addrs f)" and ds: "distinct (dm_addrs s)"
    and af: "a \<notin> set (dm_addrs f)" and as: "a \<notin> set (dm_addrs s)"
    and disj: "set (dm_addrs f) \<inter> set (dm_addrs s) = {}"
    using 3(3) by auto
  show ?case
  proof (cases "a = x")
    case True
    then show ?thesis using 3(4,6) by auto
  next
    case False
    show ?thesis
    proof (cases "dm_lookupNode x f")
      case (Some G')
      then have G': "G' = G" using 3(4) False by simp
      have sub: "set (dm_addrs (Some G)) \<subseteq> set (dm_addrs f)"
        using dm_lookupNode_Some Some G' by blast
      then have "a \<noteq> pa" using af 3(5) by auto
      moreover have "dm_lookupNode x (dm_updateNode pa h f) = dm_updateNode pa h (Some G)"
        using 3(1)[OF False df _ 3(5) 3(6)] Some G' by simp
      ultimately show ?thesis
        using False dm_updateNode_Some [of pa h G] by (auto split: option.splits)
    next
      case None
      then have s: "dm_lookupNode x s = Some G" using 3(4) False by simp
      have sub: "set (dm_addrs (Some G)) \<subseteq> set (dm_addrs s)"
        using dm_lookupNode_Some s by blast
      then have pas: "pa \<in> set (dm_addrs s)" using 3(5) by auto
      then have "a \<noteq> pa" using as by auto
      moreover have "dm_updateNode pa h f = f"
        using pas disj by (auto intro!: dm_updateNode_absent dm_lookupNode_None)
      moreover have "dm_lookupNode x (dm_updateNode pa h s) = dm_updateNode pa h (Some G)"
        using 3(2)[OF False None ds s 3(5) 3(6)] .
      ultimately show ?thesis
        using False None by simp
    qed
  qed
qed

lemma dm_updateNode_inside:
  assumes "distinct (dm_addrs t)" and "dm_lookupNode g t = Some G"
    and "pa \<in> set (dm_addrs (Some G))" and "pa \<noteq> g"
  shows "dm_updateNode pa h t = dm_updateNode g (\<lambda>old. the (dm_updateNode pa h (Some G))) t"
  using assms
proof (induction g t rule: dm_lookupNode.induct)
  case (1 x)
  then show ?case by simp
next
  case (2 x a p i ms t src)
  then show ?case by (auto split: if_splits)
next
  case (3 x a p i ms ori r f s)
  have df: "distinct (dm_addrs f)" and ds: "distinct (dm_addrs s)"
    and af: "a \<notin> set (dm_addrs f)" and as: "a \<notin> set (dm_addrs s)"
    and disj: "set (dm_addrs f) \<inter> set (dm_addrs s) = {}"
    using 3(3) by auto
  show ?case
  proof (cases "a = x")
    case True
    then show ?thesis using 3(4,6) by auto
  next
    case False
    show ?thesis
    proof (cases "dm_lookupNode x f")
      case (Some G')
      then have G': "G' = G" using 3(4) False by simp
      have sub: "set (dm_addrs (Some G)) \<subseteq> set (dm_addrs f)"
        using dm_lookupNode_Some Some G' by blast
      then have paf: "pa \<in> set (dm_addrs f)" using 3(5) by auto
      then have "a \<noteq> pa" using af by auto
      moreover have "dm_updateNode pa h s = s"
        using paf disj by (auto intro!: dm_updateNode_absent dm_lookupNode_None)
      moreover have "x \<in> set (dm_addrs f)" using Some by (rule dm_lookupNode_mem)
      then have "dm_updateNode x (\<lambda>old. the (dm_updateNode pa h (Some G))) s = s"
        using disj by (auto intro!: dm_updateNode_absent dm_lookupNode_None)
      moreover have "dm_updateNode pa h f
                     = dm_updateNode x (\<lambda>old. the (dm_updateNode pa h (Some G))) f"
        using 3(1)[OF False df _ 3(5) 3(6)] Some G' by simp
      ultimately show ?thesis
        using False by simp
    next
      case None
      then have s: "dm_lookupNode x s = Some G" using 3(4) False by simp
      have sub: "set (dm_addrs (Some G)) \<subseteq> set (dm_addrs s)"
        using dm_lookupNode_Some s by blast
      then have pas: "pa \<in> set (dm_addrs s)" using 3(5) by auto
      then have "a \<noteq> pa" using as by auto
      moreover have "dm_updateNode pa h f = f"
        using pas disj by (auto intro!: dm_updateNode_absent dm_lookupNode_None)
      moreover have "dm_updateNode x (\<lambda>old. the (dm_updateNode pa h (Some G))) f = f"
        using None by (rule dm_updateNode_absent)
      moreover have "dm_updateNode pa h s
                     = dm_updateNode x (\<lambda>old. the (dm_updateNode pa h (Some G))) s"
        using 3(2)[OF False None ds s 3(5) 3(6)] .
      ultimately show ?thesis
        using False by simp
    qed
  qed
qed

lemma dm_updateNode_overwrite:
  assumes "distinct (dm_addrs t)" and "dm_lookupNode g t = Some G"
    and "pa \<in> set (dm_addrs (Some G))" and "pa \<noteq> g"
  shows "dm_updateNode g (\<lambda>old. n) (dm_updateNode pa h t) = dm_updateNode g (\<lambda>old. n) t"
  using assms
proof (induction g t rule: dm_lookupNode.induct)
  case (1 x)
  then show ?case by simp
next
  case (2 x a p i ms t src)
  then show ?case by (auto split: if_splits)
next
  case (3 x a p i ms ori r f s)
  have df: "distinct (dm_addrs f)" and ds: "distinct (dm_addrs s)"
    and af: "a \<notin> set (dm_addrs f)" and as: "a \<notin> set (dm_addrs s)"
    and disj: "set (dm_addrs f) \<inter> set (dm_addrs s) = {}"
    using 3(3) by auto
  show ?case
  proof (cases "a = x")
    case True
    then show ?thesis using 3(4,6) by auto
  next
    case False
    show ?thesis
    proof (cases "dm_lookupNode x f")
      case (Some G')
      then have G': "G' = G" using 3(4) False by simp
      have sub: "set (dm_addrs (Some G)) \<subseteq> set (dm_addrs f)"
        using dm_lookupNode_Some Some G' by blast
      then have paf: "pa \<in> set (dm_addrs f)" using 3(5) by auto
      then have "a \<noteq> pa" using af by auto
      moreover have "dm_updateNode pa h s = s"
        using paf disj by (auto intro!: dm_updateNode_absent dm_lookupNode_None)
      moreover have "dm_updateNode x (\<lambda>old. n) (dm_updateNode pa h f)
                     = dm_updateNode x (\<lambda>old. n) f"
        using 3(1)[OF False df _ 3(5) 3(6)] Some G' by simp
      ultimately show ?thesis
        using False by simp
    next
      case None
      then have s: "dm_lookupNode x s = Some G" using 3(4) False by simp
      have sub: "set (dm_addrs (Some G)) \<subseteq> set (dm_addrs s)"
        using dm_lookupNode_Some s by blast
      then have pas: "pa \<in> set (dm_addrs s)" using 3(5) by auto
      then have "a \<noteq> pa" using as by auto
      moreover have "dm_updateNode pa h f = f"
        using pas disj by (auto intro!: dm_updateNode_absent dm_lookupNode_None)
      moreover have "dm_updateNode x (\<lambda>old. n) (dm_updateNode pa h s)
                     = dm_updateNode x (\<lambda>old. n) s"
        using 3(2)[OF False None ds s 3(5) 3(6)] .
      ultimately show ?thesis
        using False by simp
    qed
  qed
qed


lemma ptr_dm_updateNode_const: "nodeAddr n = x \<Longrightarrow> ptr (dm_updateNode x (\<lambda>old. n) t) = ptr t"
  by (cases t rule: dm_addrs.cases) (auto simp: ptr_def)

lemma dm_updateNode_root: "nodeAddr n = x \<Longrightarrow> dm_updateNode x h (Some n) = Some (h n)"
  by (cases n) auto

lemma setParent_twice: "setParent q (setParent q' n) = setParent q n"
  by (cases n) auto

lemma nodeAddr_setParent: "nodeAddr (setParent q n) = nodeAddr n"
  by (cases n) auto

lemma deref_members:
  "deref x (d\<lparr>currentlyRemoving := c\<rparr>) = deref x d"
  "deref x (d\<lparr>dm_panels := ps\<rparr>) = deref x d"
  by (simp_all add: deref_def)

lemma finalize_noSlots: "finalizePanelRemoval noSlots panelId d = d"
  by (simp add: finalizePanelRemoval_def emitPanelRemovedSignals_def noSlots_def)

lemma dm_remove_promotes:
  assumes wf: "dm_wf d" and guard: "currentlyRemoving d \<noteq> panelId"
    and reg: "map_of (dm_panels d) panelId = Some la" and leaf: "deref la d = Some leaf"
    and par: "qparent leaf = NodeParent pa" "deref pa d = Some P"
    and sib: "(firstChildOf P = Some leaf \<and> secondChildOf P = Some S)
              \<or> (firstChildOf P = Some S \<and> secondChildOf P = Some leaf)"
  shows "dm_removePanel noSlots panelId d
         = Some (True,
             d\<lparr>dm_root := (if ptr (dm_root d) = Some pa then Some (setParent NoParent S)
                            else dm_updateNode pa (\<lambda>old. setParent (qparent P) S) (dm_root d)),
               dm_panels := AList.delete panelId (dm_panels d),
               currentlyRemoving := []\<rparr>)"
proof -
  have dd: "distinct (dm_addrs (dm_root d))" and pk: "dm_parentsOk (dm_root d)"
    and rp: "rootParentOk (dm_root d)"
    using wf by (auto simp: dm_wf_def)
  have lk: "dm_lookupNode la (dm_root d) = Some leaf" and lP: "dm_lookupNode pa (dm_root d) = Some P"
    using leaf par(2) by (simp_all add: deref_def)
  have laLeaf: "nodeAddr leaf = la" and paP: "nodeAddr P = pa"
    using dm_lookupNode_Some [OF lk] dm_lookupNode_Some [OF lP] by auto
  have notRoot: "Some la \<noteq> ptr (dm_root d)"
  proof
    assume "Some la = ptr (dm_root d)"
    then have "dm_root d = Some leaf"
      using lk dm_lookupNode_root [of "dm_root d" la] by simp
    then show False using rp par(1) by simp
  qed
  have dP: "distinct (dm_addrs (Some P))"
    using dd lP by (rule dm_lookupNode_distinct)
  obtain a q i ms ori r f s where P: "P = ContainerNode a q i ms ori r f s"
    using sib by (cases P) auto
  have a: "a = pa" using paP P by simp
  have Sla: "nodeAddr S \<noteq> la"
    using sib dP laLeaf P by (cases leaf; cases S) auto
  define P1 where "P1 = (if f = Some leaf then ContainerNode a q i ms ori r f None
                         else ContainerNode a q i ms ori r None s)"
  have P1a: "nodeAddr P1 = pa" and P1q: "qparent P1 = q" and P1c: "isContainer P1"
    using a by (auto simp: P1_def)
  let ?d1 = "unregisterPanel panelId (d\<lparr>currentlyRemoving := panelId\<rparr>)"
  have gpc: "getParentContainer la ?d1 = Some (Some pa)"
    using lk lP par(1) P by (simp add: getParentContainer_def deref_def unregisterPanel_def)
  let ?d2 = "store pa P1 ?d1"
  have take: "takeSiblingNode noSlots pa la ?d1 = Some ((Some S, f = Some leaf), ?d2)"
    using lP P sib laLeaf Sla
    by (auto simp: takeSiblingNode_def deref_def unregisterPanel_def ptr_def noSlots_def P1_def)
  have root2: "ptr (dm_root ?d2) = ptr (dm_root d)"
    using P1a by (simp add: store_def unregisterPanel_def ptr_dm_updateNode_const)
  have prom: "promoteSiblingNode noSlots pa (Some S) ?d2
              = Some (True, ?d2\<lparr>dm_root := (if ptr (dm_root d) = Some pa
                                              then Some (setParent NoParent S)
                                              else dm_updateNode pa (\<lambda>old. setParent q S)
                                                     (dm_root d))\<rparr>)"
  proof (cases "ptr (dm_root d) = Some pa")
    case True
    then show ?thesis
      using root2 by (simp add: promoteSiblingNode_def)
  next
    case False
    from dm_parent_in_tree [OF pk dd lP False]
    obtain g G where G: "qparent P = NodeParent g" "dm_lookupNode g (dm_root d) = Some G"
      "isContainer G"
      "firstChildOf G = Some P \<or> (secondChildOf G = Some P \<and> ptr (firstChildOf G) \<noteq> Some pa)"
      by blast
    have qg: "q = NodeParent g" using G(1) P by simp
    have dG: "distinct (dm_addrs (Some G))"
      using dd G(2) by (rule dm_lookupNode_distinct)
    have gG: "nodeAddr G = g"
      using dm_lookupNode_Some [OF G(2)] by simp
    obtain ga gq gi gms gori gr gf gs where Gc: "G = ContainerNode ga gq gi gms gori gr gf gs"
      using G(3) by (cases G) auto
    have ga: "ga = g" using gG Gc by simp
    have paG: "pa \<in> set (dm_addrs (Some G))" and pag: "pa \<noteq> g"
      using G(4) dG gG paP Gc P by auto
    have root_d2: "dm_root ?d2 = dm_updateNode pa (\<lambda>old. P1) (dm_root d)"
      by (simp add: store_def unregisterPanel_def)
    have lP1: "deref pa ?d2 = Some P1"
      using lP P1a by (simp add: deref_def root_d2 dm_lookupNode_updateNode_same)
    obtain G1 where G1: "dm_updateNode pa (\<lambda>old. P1) (Some G) = Some G1"
      using dm_updateNode_Some [of pa "\<lambda>old. P1" G] by auto
    have lG1: "deref g ?d2 = Some G1"
      using dm_lookupNode_updateNode_inside [OF dd G(2) paG pag, of "\<lambda>old. P1"] G1
      by (simp add: deref_def root_d2)
    have G1c: "isContainer G1"
      using G1 Gc pag ga by (auto split: if_splits)
    have gpc2: "getParentContainer pa ?d2 = Some (Some g)"
      using lP1 lG1 P1q qg G1c by (simp add: getParentContainer_def)
    let ?S' = "setParent (NodeParent g) S"
    let ?G2 = "if ptr (firstChildOf G1) = Some pa then setFirstChild (Some ?S') G1
               else setSecondChild (Some ?S') G1"
    have slot: "ptr (firstChildOf G1) = Some pa \<or> ptr (secondChildOf G1) = Some pa"
      and G2: "?G2 = the (dm_updateNode pa (\<lambda>old. ?S') (Some G))"
    proof -
      show "ptr (firstChildOf G1) = Some pa \<or> ptr (secondChildOf G1) = Some pa"
      proof (cases "gf = Some P")
        case True
        then show ?thesis
          using G1 Gc pag ga paP P1a by (auto simp: ptr_def dm_updateNode_root split: if_splits)
      next
        case False
        then have gs: "gs = Some P" using G(4) Gc by auto
        then show ?thesis
          using G1 Gc pag ga paP P1a by (auto simp: ptr_def dm_updateNode_root split: if_splits)
      qed
      show "?G2 = the (dm_updateNode pa (\<lambda>old. ?S') (Some G))"
      proof (cases "gf = Some P")
        case True
        then have "pa \<notin> set (dm_addrs gs)"
          using dG Gc paP P by auto
        then have "dm_updateNode pa h gs = gs" for h
          by (auto intro!: dm_updateNode_absent dm_lookupNode_None)
        then show ?thesis
          using G1 Gc True pag ga paP P1a
          by (auto simp: ptr_def setParent_twice dm_updateNode_root split: if_splits)
      next
        case False
        then have gs: "gs = Some P" and nf: "ptr gf \<noteq> Some pa"
          using G(4) Gc by auto
        have "pa \<notin> set (dm_addrs gf)"
          using dG Gc paP gs P by auto
        then have "dm_updateNode pa h gf = gf" for h
          by (auto intro!: dm_updateNode_absent dm_lookupNode_None)
        then show ?thesis
          using G1 Gc gs nf pag ga paP P1a
          by (auto simp: ptr_def setParent_twice dm_updateNode_root split: if_splits)
      qed
    qed
    have "dm_updateNode g (\<lambda>old. ?G2) (dm_updateNode pa (\<lambda>old. P1) (dm_root d))
          = dm_updateNode g (\<lambda>old. ?G2) (dm_root d)"
      using dd G(2) paG pag by (rule dm_updateNode_overwrite)
    also have "\<dots> = dm_updateNode pa (\<lambda>old. ?S') (dm_root d)"
      using dm_updateNode_inside [OF dd G(2) paG pag, of "\<lambda>old. ?S'"] G2 by simp
    finally have final: "dm_updateNode g (\<lambda>old. ?G2) (dm_updateNode pa (\<lambda>old. P1) (dm_root d))
          = dm_updateNode pa (\<lambda>old. ?S') (dm_root d)" .
    have repl: "replaceChildInContainer noSlots g pa (Some S) ?d2
                = Some (True, ?d2\<lparr>dm_root := dm_updateNode pa (\<lambda>old. ?S') (dm_root d)\<rparr>)"
    proof (cases "ptr (firstChildOf G1) = Some pa")
      case True
      then show ?thesis
        using lG1 final
        by (simp add: replaceChildInContainer_def Let_def noSlots_def store_def
            unregisterPanel_def)
    next
      case False
      then have "ptr (secondChildOf G1) = Some pa" using slot by simp
      then show ?thesis
        using False lG1 final
        by (simp add: replaceChildInContainer_def Let_def noSlots_def store_def
            unregisterPanel_def)
    qed
    show ?thesis
      using False root2 gpc2 repl qg by (simp add: promoteSiblingNode_def)
  qed
  have nr1: "Some la \<noteq> ptr (dm_root ?d1)"
    using notRoot by (simp add: unregisterPanel_def)
  have lk0: "deref la (d\<lparr>currentlyRemoving := panelId\<rparr>) = Some leaf"
    using leaf by (simp add: deref_members)
  have reg0: "map_of (dm_panels (d\<lparr>currentlyRemoving := panelId\<rparr>)) panelId = Some la"
    using reg by simp
  have qP: "qparent P = q" using P by simp
  show ?thesis
    unfolding dm_removePanel_def Let_def
    using guard reg0 lk0 nr1 gpc take prom qP
    by (simp add: finalize_noSlots clearGuard_def store_def unregisterPanel_def)
qed


lemma scenario_ABC_stm:
  "stm_insertPanelAt_rebuild (Some (createPanelNode 3 ''C'' ''c'' ''qrc:/C.qml'' stm_AB))
     (findNodeById (m_root stm_AB) ''B'') Right stm_AB = Some (True, stm_ABC)
   \<and> stm_addPanelAt ''C'' ''c'' ''qrc:/C.qml'' ''B'' Right stm_AB = None"
  by (simp add: stm_eval stm_init_def stm_AB_def stm_ABC_def)

lemma scenario_ABC_dm:
  "dm_addPanelAt ''C'' ''c'' ''qrc:/C.qml'' ''B'' Right dm_AB = Some (True, dm_ABC)"
  by (simp add: dm_eval dm_AB_def dm_ABC_def)

lemma stm_wf_ABC: "stm_wf stm_ABC"
  by (simp add: stm_wf_def stm_ABC_def createPanelNode_def newTreeNode_def setParentPtr_def)

lemma dm_wf_ABC: "dm_wf dm_ABC"
  by (simp add: dm_wf_def dm_ABC_def)

text \<open>
  C1. Let a well-formed tree hold the panel that \<open>removePanel\<close> resolves (by \<open>findNodeById\<close>
  in \<open>SplitTreeModel\<close>, through the registry in \<open>DockingManager\<close>), let \<open>P\<close> be the Split its
  parent pointer names and \<open>S\<close> the other child of \<open>P\<close>. Then \<open>removePanel\<close> returns true and
  the tree afterwards is the tree before with the subtree at the address of \<open>P\<close> replaced by
  \<open>S\<close>: \<open>S\<close> is the new root, with its parent pointer cleared, when \<open>P\<close> was the root, and
  otherwise \<open>S\<close> stands where \<open>P\<close> stood, with the parent \<open>P\<close> had (the grandparent).
  Nothing of \<open>S\<close> but its parent pointer changes (\<open>setParentPtr\<close>, \<open>setParent\<close>), and
  nothing else of the tree changes. The registry loses the identifier.
\<close>

theorem C1_remove_promotes_sibling:
  "(stm_wf m \<and> findNodeById (m_root m) panelId = Some leaf \<and> ntype (attrs leaf) = Panel
      \<and> parent (attrs leaf) = Some pa \<and> lookupNode pa (m_root m) = Some P
      \<and> ntype (attrs P) = Split
      \<and> ((firstChild P = Some leaf \<and> secondChild P = Some S)
          \<or> (firstChild P = Some S \<and> secondChild P = Some leaf))
    \<longrightarrow> stm_removePanel noSlots panelId m
        = Some (True, updatePanelCount noSlots
            (m\<lparr>m_root := (if addrOf (m_root m) = Some pa then Some (setParentPtr None S)
                           else updateNode pa (\<lambda>old. setParentPtr (parent (attrs P)) S)
                                  (m_root m))\<rparr>)))
   \<and> (dm_wf d \<and> currentlyRemoving d \<noteq> panelId \<and> map_of (dm_panels d) panelId = Some la
      \<and> deref la d = Some dleaf \<and> qparent dleaf = NodeParent dpa \<and> deref dpa d = Some dP
      \<and> ((firstChildOf dP = Some dleaf \<and> secondChildOf dP = Some dS)
          \<or> (firstChildOf dP = Some dS \<and> secondChildOf dP = Some dleaf))
    \<longrightarrow> dm_removePanel noSlots panelId d
        = Some (True,
            d\<lparr>dm_root := (if ptr (dm_root d) = Some dpa then Some (setParent NoParent dS)
                           else dm_updateNode dpa (\<lambda>old. setParent (qparent dP) dS)
                                  (dm_root d)),
              dm_panels := AList.delete panelId (dm_panels d),
              currentlyRemoving := []\<rparr>))"
  using stm_remove_promotes [of m panelId leaf pa P S]
    dm_remove_promotes [of d panelId la dleaf dpa dP dS]
  by blast

text \<open>Removing \<open>B\<close> from the tree of \<open>A\<close>, \<open>B\<close> and \<open>C\<close>: \<open>C\<close> stands where the inner Split stood.\<close>

theorem C1_remove_promotes_sibling_witness:
  "stm_removePanel noSlots ''B'' stm_ABC
     = Some (True, stm_ABC\<lparr>m_root := Some (TreeNode
          ((newTreeNode 2 Split ''node_1'' None)\<lparr>orientation := Vertical\<rparr>)
          (Some (setParentPtr (Some 2) (createPanelNode 0 ''A'' ''a'' ''qrc:/A.qml'' stm_init)))
          (Some (setParentPtr (Some 2) (createPanelNode 3 ''C'' ''c'' ''qrc:/C.qml'' stm_init)))),
        m_panelCount := 2\<rparr>)
   \<and> dm_removePanel noSlots ''B'' dm_ABC
     = Some (True, dm_ABC\<lparr>dm_root := Some (ContainerNode 2 ManagerParent ''node_1'' 150 Vertical 0.5
          (Some (PanelNode 0 (NodeParent 2) ''A'' 150 ''a'' ''qrc:/A.qml''))
          (Some (PanelNode 3 (NodeParent 2) ''C'' 150 ''c'' ''qrc:/C.qml''))),
        dm_panels := [(''A'', 0), (''C'', 3)]\<rparr>)"
  using C1_remove_promotes_sibling [where m = stm_ABC and panelId = "''B''"
      and leaf = "setParentPtr (Some 4) (createPanelNode 1 ''B'' ''b'' ''qrc:/B.qml'' stm_init)"
      and pa = 4
      and P = "TreeNode ((newTreeNode 4 Split ''node_2'' (Some 2))\<lparr>orientation := Vertical\<rparr>)
            (Some (setParentPtr (Some 4) (createPanelNode 1 ''B'' ''b'' ''qrc:/B.qml'' stm_init)))
            (Some (setParentPtr (Some 4) (createPanelNode 3 ''C'' ''c'' ''qrc:/C.qml'' stm_init)))"
      and S = "setParentPtr (Some 4) (createPanelNode 3 ''C'' ''c'' ''qrc:/C.qml'' stm_init)"
      and d = dm_ABC and la = 1
      and dleaf = "PanelNode 1 (NodeParent 4) ''B'' 150 ''b'' ''qrc:/B.qml''"
      and dpa = 4
      and dP = "ContainerNode 4 (NodeParent 2) ''node_2'' 150 Vertical 0.5
            (Some (PanelNode 1 (NodeParent 4) ''B'' 150 ''b'' ''qrc:/B.qml''))
            (Some (PanelNode 3 (NodeParent 4) ''C'' 150 ''c'' ''qrc:/C.qml''))"
      and dS = "PanelNode 3 (NodeParent 4) ''C'' 150 ''c'' ''qrc:/C.qml''"]
    stm_wf_ABC dm_wf_ABC
  by (simp add: stm_ABC_def dm_ABC_def createPanelNode_def newTreeNode_def setParentPtr_def
      addrOf_def updatePanelCount_def noSlots_def ptr_def deref_def
      stm_init_def numeral_2_eq_2 numeral_3_eq_3)

subsection \<open>Removing: a request made while a removal is in progress\<close>

lemma dm_nested_rejected:
  "currentlyRemoving d = panelId \<Longrightarrow> dm_nested panelId d = (False, d)"
  by (simp add: dm_nested_def dm_removePanel_def)

lemma dm_reenter_guarded:
  "currentlyRemoving d = panelId \<Longrightarrow> dm_reenter panelId sig d = d"
  by (simp add: dm_reenter_def dm_nested_rejected)

lemma currentlyRemoving_store [simp]: "currentlyRemoving (store x n d) = currentlyRemoving d"
  by (simp add: store_def)

lemma currentlyRemoving_unregisterPanel [simp]:
  "currentlyRemoving (unregisterPanel p d) = currentlyRemoving d"
  by (simp add: unregisterPanel_def)

lemma takeSiblingNode_reenter:
  "currentlyRemoving d = p \<Longrightarrow>
   takeSiblingNode (dm_reenter p) a b d = takeSiblingNode noSlots a b d"
  by (simp add: takeSiblingNode_def dm_reenter_guarded noSlots_def split: option.splits)

lemma takeSiblingNode_guard:
  "takeSiblingNode noSlots a b d = Some (r, d') \<Longrightarrow> currentlyRemoving d' = currentlyRemoving d"
  by (auto simp: takeSiblingNode_def noSlots_def split: option.splits if_splits)

lemma replaceChildInContainer_reenter:
  "currentlyRemoving d = p \<Longrightarrow>
   replaceChildInContainer (dm_reenter p) c old new d = replaceChildInContainer noSlots c old new d"
  by (simp add: replaceChildInContainer_def dm_reenter_guarded noSlots_def Let_def
      split: option.splits)

lemma replaceChildInContainer_guard:
  "replaceChildInContainer noSlots c old new d = Some (r, d')
   \<Longrightarrow> currentlyRemoving d' = currentlyRemoving d"
  by (auto simp: replaceChildInContainer_def noSlots_def Let_def split: option.splits if_splits)

lemma promoteSiblingNode_reenter:
  "currentlyRemoving d = p \<Longrightarrow>
   promoteSiblingNode (dm_reenter p) a sib d = promoteSiblingNode noSlots a sib d"
  by (simp add: promoteSiblingNode_def replaceChildInContainer_reenter split: option.splits)

lemma promoteSiblingNode_guard:
  "promoteSiblingNode noSlots a sib d = Some (r, d') \<Longrightarrow> currentlyRemoving d' = currentlyRemoving d"
  by (auto simp: promoteSiblingNode_def replaceChildInContainer_guard
      split: option.splits if_splits)

lemma finalizePanelRemoval_reenter:
  "currentlyRemoving d = p \<Longrightarrow>
   finalizePanelRemoval (dm_reenter p) q d = finalizePanelRemoval noSlots q d"
  by (simp add: finalizePanelRemoval_def emitPanelRemovedSignals_def dm_reenter_guarded
      noSlots_def)

lemma dm_nested_remove_is_noop:
  "dm_removePanel (dm_reenter panelId) panelId d = dm_removePanel noSlots panelId d"
proof (cases "currentlyRemoving d = panelId")
  case True
  then show ?thesis by (simp add: dm_removePanel_def)
next
  case False
  let ?d1 = "unregisterPanel panelId (d\<lparr>currentlyRemoving := panelId\<rparr>)"
  have g1: "currentlyRemoving ?d1 = panelId" by simp
  have g1': "currentlyRemoving (?d1\<lparr>dm_root := None\<rparr>) = panelId" by simp
  have t: "takeSiblingNode (dm_reenter panelId) a b ?d1 = takeSiblingNode noSlots a b ?d1" for a b
    using g1 by (rule takeSiblingNode_reenter)
  have pr: "promoteSiblingNode (dm_reenter panelId) a sib d2 = promoteSiblingNode noSlots a sib d2"
    if "takeSiblingNode noSlots a' b ?d1 = Some (r, d2)" for a a' b sib r d2
    using takeSiblingNode_guard [OF that] g1 by (simp add: promoteSiblingNode_reenter)
  have fin: "finalizePanelRemoval (dm_reenter panelId) panelId d3
             = finalizePanelRemoval noSlots panelId d3"
    if "takeSiblingNode noSlots a' b ?d1 = Some (r, d2)"
      "promoteSiblingNode noSlots a sib d2 = Some (r', d3)" for a a' b sib r r' d2 d3
    using takeSiblingNode_guard [OF that(1)] promoteSiblingNode_guard [OF that(2)] g1
    by (simp add: finalizePanelRemoval_reenter)
  show ?thesis
    using False
    by (auto simp: dm_removePanel_def Let_def t pr fin finalizePanelRemoval_reenter [OF g1']
        split: option.splits prod.splits bool.splits if_splits)
qed

text \<open>
  C5. \<open>DockingManager::removePanel\<close> keeps the identifier being removed in
  \<open>currentlyRemoving\<close> and rejects a request for it (lemma \<open>dm_nested_rejected\<close>); a slot that
  asks again on every signal changes nothing (lemma \<open>dm_nested_remove_is_noop\<close>).
  \<open>SplitTreeModel::removePanel\<close> keeps no such record. When the panel is the root,
  \<open>beginResetModel()\<close> runs before \<open>m_root.reset()\<close>, so the slots of \<open>modelAboutToBeReset\<close> see
  the model with the panel still in place (first conjunct, for any slots). A remove request
  for the same identifier issued there is carried out and returns true (second conjunct);
  the outer call then goes on, resets the root again and sends \<open>panelRemoved\<close> a second time,
  and returns true as well (third conjunct). The same run on the manager: the nested
  requests are rejected and the guarded state is left as it is (fourth and fifth conjunct).
\<close>

theorem C5_stm_nested_remove_accepted:
  "stm_removePanel slots ''A'' stm_A
     = Some (True, slots LayoutChanged (slots (PanelRemoved ''A'') (slots RootChanged
         (updatePanelCount slots
            (slots ModelReset ((slots ModelAboutToBeReset stm_A)\<lparr>m_root := None\<rparr>))))))
   \<and> stm_nested ''A'' stm_A = (True, stm_A\<lparr>m_root := None, m_panelCount := 0\<rparr>)
   \<and> stm_removePanel (stm_reenter ''A'') ''A'' stm_A
     = Some (True, stm_A\<lparr>m_root := None, m_panelCount := 0\<rparr>)
   \<and> dm_removePanel (dm_reenter ''A'') ''A'' dm_A
     = Some (True, dm_A\<lparr>dm_root := None, dm_panels := []\<rparr>)
   \<and> dm_nested ''A'' (dm_A\<lparr>currentlyRemoving := ''A''\<rparr>)
     = (False, dm_A\<lparr>currentlyRemoving := ''A''\<rparr>)"
  by (simp add: stm_removePanel_def stm_nested_def stm_reenter_def dm_nested_def dm_reenter_def
      dm_removePanel_def stm_A_def dm_A_def createPanelNode_def newTreeNode_def addrOf_def
      updatePanelCount_def noSlots_def Let_def unregisterPanel_def ptr_def deref_def
      finalizePanelRemoval_def emitPanelRemovedSignals_def clearGuard_def stm_init_def)

subsection \<open>Saving and loading\<close>

lemma stm_layoutOf_panelFromVariant:
  "ntype a = Panel \<Longrightarrow>
   stm_layoutOf (stm_panelFromVariant cv mps (toVariantMap (TreeNode a f s)) p x)
     = PanelL (nid a) (title a) (qmlSource a) (minSize a)"
  by (simp add: stm_panelFromVariant_def newTreeNode_def valueOf_def valueOr_def)

lemma stm_splitFromVariant_save:
  "ntype a \<noteq> Panel \<Longrightarrow>
   stm_splitFromVariant cv mps (toVariantMap (TreeNode a f s)) p x
     = (newTreeNode x Split (nid a) p)
         \<lparr>orientation := orientation a, splitRatio := splitRatio a, minSize := minSize a\<rparr>"
  by (cases "orientation a")
     (simp_all add: stm_splitFromVariant_def newTreeNode_def valueOf_def valueOr_def)

lemma stm_save_type:
  "toString cv (valueOf (toVariantMap (TreeNode a f s)) ''type'')
     = (if ntype a = Panel then ''panel'' else ''split'')"
  by (simp add: valueOf_def valueOr_def)

lemma stm_save_first:
  "ntype a \<noteq> Panel \<Longrightarrow>
   contains (toVariantMap (TreeNode a f s)) ''firstChild'' = (f \<noteq> None)
   \<and> (\<forall>c. f = Some c \<longrightarrow>
          toMap (valueOf (toVariantMap (TreeNode a f s)) ''firstChild'') = toVariantMap c)"
  by (cases f; cases s) (simp_all add: contains_def valueOf_def valueOr_def)

lemma stm_save_second:
  "ntype a \<noteq> Panel \<Longrightarrow>
   contains (toVariantMap (TreeNode a f s)) ''secondChild'' = (s \<noteq> None)
   \<and> (\<forall>c. s = Some c \<longrightarrow>
          toMap (valueOf (toVariantMap (TreeNode a f s)) ''secondChild'') = toVariantMap c)"
  by (cases f; cases s) (simp_all add: contains_def valueOf_def valueOr_def)

lemma stm_load_save_node:
  "\<exists>t' x'. stm_loadNodeFromVariant cv mps (toVariantMap t) p x = (Some t', x')
      \<and> stm_layoutOf t' = stm_layoutOf t"
proof (induction t arbitrary: p x)
  case (TreeNode a f s)
  show ?case
  proof (cases "ntype a = Panel")
    case True
    then show ?thesis
      by (subst stm_loadNodeFromVariant.simps)
         (simp add: stm_save_type stm_layoutOf_panelFromVariant del: toVariantMap.simps)
  next
    case False
    then have sp: "ntype a = Split" by (cases "ntype a") auto
    have F: "\<exists>f' x1. (if contains (toVariantMap (TreeNode a f s)) ''firstChild''
               then stm_loadNodeFromVariant cv mps
                      (toMap (valueOf (toVariantMap (TreeNode a f s)) ''firstChild''))
                      (Some x) (Suc x)
               else (None, Suc x)) = (f', x1)
             \<and> map_option stm_layoutOf f' = map_option stm_layoutOf f"
    proof (cases f)
      case None
      then show ?thesis using stm_save_first [OF False, of f s] by simp
    next
      case (Some c)
      from TreeNode.IH(1) [of c "Some x" "Suc x"] Some
      obtain t' x' where "stm_loadNodeFromVariant cv mps (toVariantMap c) (Some x) (Suc x) = (Some t', x')"
        "stm_layoutOf t' = stm_layoutOf c" by auto
      then show ?thesis using stm_save_first [OF False, of f s] Some by simp
    qed
    then obtain f' x1 where f': "(if contains (toVariantMap (TreeNode a f s)) ''firstChild''
               then stm_loadNodeFromVariant cv mps
                      (toMap (valueOf (toVariantMap (TreeNode a f s)) ''firstChild''))
                      (Some x) (Suc x)
               else (None, Suc x)) = (f', x1)"
        and lf: "map_option stm_layoutOf f' = map_option stm_layoutOf f" by blast
    have S: "\<exists>s' x2. (if contains (toVariantMap (TreeNode a f s)) ''secondChild''
               then stm_loadNodeFromVariant cv mps
                      (toMap (valueOf (toVariantMap (TreeNode a f s)) ''secondChild''))
                      (Some x) x1
               else (None, x1)) = (s', x2)
             \<and> map_option stm_layoutOf s' = map_option stm_layoutOf s"
    proof (cases s)
      case None
      then show ?thesis using stm_save_second [OF False, of f s] by simp
    next
      case (Some c)
      from TreeNode.IH(2) [of c "Some x" x1] Some
      obtain t' x' where "stm_loadNodeFromVariant cv mps (toVariantMap c) (Some x) x1 = (Some t', x')"
        "stm_layoutOf t' = stm_layoutOf c" by auto
      then show ?thesis using stm_save_second [OF False, of f s] Some by simp
    qed
    then obtain s' x2 where s': "(if contains (toVariantMap (TreeNode a f s)) ''secondChild''
               then stm_loadNodeFromVariant cv mps
                      (toMap (valueOf (toVariantMap (TreeNode a f s)) ''secondChild''))
                      (Some x) x1
               else (None, x1)) = (s', x2)"
        and ls: "map_option stm_layoutOf s' = map_option stm_layoutOf s" by blast
    show ?thesis
      apply (subst stm_loadNodeFromVariant.simps)
      apply (simp only: stm_save_type False if_False f' s' prod.case)
      apply (simp add: stm_splitFromVariant_save [OF False] newTreeNode_def lf ls False
               del: toVariantMap.simps)
      done
  qed
qed


lemma stm_round_trip:
  "fst (stm_loadLayout cv (stm_saveLayout m) m0)
   \<and> map_option stm_layoutOf (m_root (snd (stm_loadLayout cv (stm_saveLayout m) m0)))
       = map_option stm_layoutOf (m_root m)
   \<and> m_minPanelSize (snd (stm_loadLayout cv (stm_saveLayout m) m0)) = m_minPanelSize m"
proof (cases "m_root m")
  case None
  then show ?thesis
    by (simp add: stm_loadLayout_def stm_saveLayout_def contains_def valueOf_def valueOr_def
        updatePanelCount_def Let_def noSlots_def)
next
  case (Some r)
  obtain t' x' where l: "stm_loadNodeFromVariant cv (m_minPanelSize m) (toVariantMap r) None
      (nextAddr m0) = (Some t', x')" and eq: "stm_layoutOf t' = stm_layoutOf r"
    using stm_load_save_node by blast
  show ?thesis
    using Some l eq
    by (simp add: stm_loadLayout_def stm_saveLayout_def contains_def valueOf_def valueOr_def
        updatePanelCount_def Let_def noSlots_def del: toVariantMap.simps)
qed

lemma dm_save_type:
  "toString cv (valueOf (toVariant n) ''type'')
     = (if isContainer n then ''container'' else ''panel'')"
  by (cases n) (simp_all add: valueOf_def valueOr_def)


lemma dm_layoutOf_setParent [simp]: "dm_layoutOf (setParent q n) = dm_layoutOf n"
  by (cases n) simp_all

lemma dm_layoutOf_panelFromVariant:
  "50 \<le> ms \<Longrightarrow> ms \<le> 1000 \<Longrightarrow>
   dm_layoutOf (dm_panelFromVariant cv mps (toVariant (PanelNode a p i ms t src)) x)
     = PanelL i t src (safeSetValue 150 ms)"
  by (simp add: dm_panelFromVariant_def newPanelNode_def valueOf_def valueOr_def
      validateMinSize_nearest)

lemma dm_containerFromVariant_save:
  "50 \<le> ms \<Longrightarrow> ms \<le> 1000 \<Longrightarrow> 0.1 \<le> r \<Longrightarrow> r \<le> 0.9 \<Longrightarrow>
   dm_containerFromVariant cv mps (toVariant (ContainerNode a p i ms ori r f s)) x
     = ContainerNode x ManagerParent i (safeSetValue 150 ms) ori (safeSetValue 0.5 r) None None"
  by (cases ori)
     (simp_all add: dm_containerFromVariant_def newContainerNode_def valueOf_def valueOr_def
        validateMinSize_nearest validateSplitRatio_nearest)

lemma dm_save_first:
  "contains (toVariant (ContainerNode a p i ms ori r f s)) ''first'' = (f \<noteq> None)
   \<and> (\<forall>c. f = Some c \<longrightarrow>
          toMap (valueOf (toVariant (ContainerNode a p i ms ori r f s)) ''first'') = toVariant c)"
  by (cases f; cases s) (simp_all add: contains_def valueOf_def valueOr_def)

lemma dm_save_second:
  "contains (toVariant (ContainerNode a p i ms ori r f s)) ''second'' = (s \<noteq> None)
   \<and> (\<forall>c. s = Some c \<longrightarrow>
          toMap (valueOf (toVariant (ContainerNode a p i ms ori r f s)) ''second'') = toVariant c)"
  by (cases f; cases s) (simp_all add: contains_def valueOf_def valueOr_def)

lemma dm_load_save_node:
  "inRange (dm_layoutOf n) \<Longrightarrow>
   \<exists>n' ps' x'. dm_loadNodeFromVariant cv mps (toVariant n) panels x = (Some n', ps', x')
      \<and> dm_layoutOf n' = snapped (dm_layoutOf n)"
proof (induction n arbitrary: panels x)
  case (PanelNode a p i ms t src)
  then show ?case
    by (subst dm_loadNodeFromVariant.simps)
       (simp add: dm_save_type dm_layoutOf_panelFromVariant del: toVariant.simps)
next
  case (ContainerNode a p i ms ori r f s)
  let ?n = "ContainerNode a p i ms ori r f s"
  from ContainerNode.prems have rng: "50 \<le> ms" "ms \<le> 1000" "0.1 \<le> r" "r \<le> 0.9"
    and rf: "\<And>c. f = Some c \<Longrightarrow> inRange (dm_layoutOf c)"
    and rs: "\<And>c. s = Some c \<Longrightarrow> inRange (dm_layoutOf c)"
    by auto
  have F: "\<exists>f' ps1 x1. (if contains (toVariant ?n) ''first''
               then dm_loadNodeFromVariant cv mps (toMap (valueOf (toVariant ?n) ''first''))
                      panels (Suc x)
               else (None, panels, Suc x)) = (f', ps1, x1)
             \<and> map_option dm_layoutOf f' = map_option (snapped \<circ> dm_layoutOf) f
             \<and> (f' = None \<longleftrightarrow> f = None)"
  proof (cases f)
    case None
    then show ?thesis using dm_save_first [of a p i ms ori r f s] by simp
  next
    case (Some c)
    from ContainerNode.IH(1) [of c panels "Suc x"] Some rf
    obtain n' ps' x' where
      "dm_loadNodeFromVariant cv mps (toVariant c) panels (Suc x) = (Some n', ps', x')"
      "dm_layoutOf n' = snapped (dm_layoutOf c)" by auto
    then show ?thesis using dm_save_first [of a p i ms ori r f s] Some by simp
  qed
  then obtain f' ps1 x1 where f': "(if contains (toVariant ?n) ''first''
               then dm_loadNodeFromVariant cv mps (toMap (valueOf (toVariant ?n) ''first''))
                      panels (Suc x)
               else (None, panels, Suc x)) = (f', ps1, x1)"
      and lf: "map_option dm_layoutOf f' = map_option (snapped \<circ> dm_layoutOf) f"
      and nf: "f' = None \<longleftrightarrow> f = None" by blast
  have S: "\<exists>s' ps2 x2. (if contains (toVariant ?n) ''second''
               then dm_loadNodeFromVariant cv mps (toMap (valueOf (toVariant ?n) ''second''))
                      ps1 x1
               else (None, ps1, x1)) = (s', ps2, x2)
             \<and> map_option dm_layoutOf s' = map_option (snapped \<circ> dm_layoutOf) s
             \<and> (s' = None \<longleftrightarrow> s = None)"
  proof (cases s)
    case None
    then show ?thesis using dm_save_second [of a p i ms ori r f s] by simp
  next
    case (Some c)
    from ContainerNode.IH(2) [of c ps1 x1] Some rs
    obtain n' ps' x' where
      "dm_loadNodeFromVariant cv mps (toVariant c) ps1 x1 = (Some n', ps', x')"
      "dm_layoutOf n' = snapped (dm_layoutOf c)" by auto
    then show ?thesis using dm_save_second [of a p i ms ori r f s] Some by simp
  qed
  then obtain s' ps2 x2 where s': "(if contains (toVariant ?n) ''second''
               then dm_loadNodeFromVariant cv mps (toMap (valueOf (toVariant ?n) ''second''))
                      ps1 x1
               else (None, ps1, x1)) = (s', ps2, x2)"
      and ls: "map_option dm_layoutOf s' = map_option (snapped \<circ> dm_layoutOf) s"
      and ns: "s' = None \<longleftrightarrow> s = None" by blast
  have cf: "contains (toVariant ?n) ''first'' = (f \<noteq> None)"
    and cs: "contains (toVariant ?n) ''second'' = (s \<noteq> None)"
    using dm_save_first [of a p i ms ori r f s] dm_save_second [of a p i ms ori r f s] by auto
  have ty: "toString cv (valueOf (toVariant ?n) ''type'') = ''container''"
    by (simp add: dm_save_type del: toVariant.simps)
  show ?case
    apply (subst dm_loadNodeFromVariant.simps)
    apply (simp only: ty f' s' prod.case)
    apply (simp add: dm_containerFromVariant_save [OF rng(1,2,3,4)] cf cs
             option.map_comp comp_def del: toVariant.simps)
    using lf ls nf ns
    apply (cases f; cases s; simp add: option.map_comp comp_def)
    done
qed


lemma dm_round_trip:
  assumes "dm_inRange d"
  shows "fst (dm_loadLayout cv (dm_saveLayout d) d0)
   \<and> map_option dm_layoutOf (dm_root (snd (dm_loadLayout cv (dm_saveLayout d) d0)))
       = map_option (snapped \<circ> dm_layoutOf) (dm_root d)
   \<and> dm_minPanelSize (snd (dm_loadLayout cv (dm_saveLayout d) d0))
       = safeSetValue (dm_minPanelSize d0) (dm_minPanelSize d)"
proof (cases "dm_root d")
  case None
  then show ?thesis
    using assms
    by (simp add: dm_loadLayout_def dm_saveLayout_def contains_def valueOf_def valueOr_def
        dm_clear_def dm_setMinPanelSize_def validateMinSize_nearest dm_inRange_def Let_def)
next
  case (Some r)
  then have "inRange (dm_layoutOf r)"
    using assms by (simp add: dm_inRange_def)
  from dm_load_save_node [OF this]
  obtain n' ps' x' where l: "dm_loadNodeFromVariant cv
      (safeSetValue (dm_minPanelSize d0) (dm_minPanelSize d)) (toVariant r) []
      (dm_nextAddr d0) = (Some n', ps', x')" and eq: "dm_layoutOf n' = snapped (dm_layoutOf r)"
    by blast
  show ?thesis
    using Some l eq assms
    by (simp add: dm_loadLayout_def dm_saveLayout_def contains_def valueOf_def valueOr_def
        dm_clear_def dm_setMinPanelSize_def validateMinSize_nearest dm_inRange_def Let_def
        del: toVariant.simps)
qed

lemma qFuzzyCompare_refl: "qFuzzyCompare x x"
  by (simp add: qFuzzyCompare_def)

lemma safeSetValue_fuzzy: "qFuzzyCompare (safeSetValue c x) x"
  by (simp add: safeSetValue_def qFuzzyCompare_refl)

lemma safeSetValue_exact: "\<not> qFuzzyCompare c x \<or> x = c \<Longrightarrow> safeSetValue c x = x"
  by (auto simp: safeSetValue_def)

text \<open>
  C3. \<open>SplitTreeModel\<close>: for every tree, the empty one included, and whatever the model
  held before, \<open>loadLayout\<close> of the document that \<open>saveLayout\<close> wrote returns true and leaves
  a tree with the layout of the saved one (same node kinds, identifiers, child order,
  orientations, split ratios, titles, content references and minimum sizes), and the saved
  \<open>m_minPanelSize\<close>.

  \<open>DockingManager\<close>: for every manager in range, the empty tree included, \<open>loadLayout\<close> of the
  saved document returns true and leaves the saved layout with its numbers passed through
  the setters of freshly constructed nodes: a split ratio that \<open>qFuzzyCompare\<close> equates with
  the constructor's 0.5 comes back as 0.5, a minimum size that it equates with 150 comes
  back as 150, every other number comes back as it was (\<open>snapped\<close>; each number that comes
  back is \<open>qFuzzyCompare\<close>-equal to the saved one, lemma \<open>safeSetValue_fuzzy\<close>). The saved
  \<open>m_minPanelSize\<close> is taken over unless \<open>qFuzzyCompare\<close> equates it with the one the loading
  manager had.
\<close>

theorem C3_save_load_round_trip:
  "(fst (stm_loadLayout cv (stm_saveLayout m) m0)
    \<and> map_option stm_layoutOf (m_root (snd (stm_loadLayout cv (stm_saveLayout m) m0)))
        = map_option stm_layoutOf (m_root m)
    \<and> m_minPanelSize (snd (stm_loadLayout cv (stm_saveLayout m) m0)) = m_minPanelSize m)
   \<and> (dm_inRange d \<longrightarrow>
        fst (dm_loadLayout cv (dm_saveLayout d) d0)
        \<and> map_option dm_layoutOf (dm_root (snd (dm_loadLayout cv (dm_saveLayout d) d0)))
            = map_option (snapped \<circ> dm_layoutOf) (dm_root d)
        \<and> dm_minPanelSize (snd (dm_loadLayout cv (dm_saveLayout d) d0))
            = safeSetValue (dm_minPanelSize d0) (dm_minPanelSize d))"
  using stm_round_trip [of cv m m0] dm_round_trip [of d cv d0] by blast

text \<open>The tree of \<open>A\<close>, \<open>B\<close> and \<open>C\<close>, and the tree of \<open>A\<close> and \<open>B\<close> with ratio 0.7, come
  back as they were.\<close>

theorem C3_save_load_round_trip_witness:
  "map_option stm_layoutOf
      (m_root (snd (stm_loadLayout fallbackConv (stm_saveLayout stm_ABC) stm_init)))
     = Some (SplitL ''node_1'' Vertical 0.5 150
         (Some (PanelL ''A'' ''a'' ''qrc:/A.qml'' 150))
         (Some (SplitL ''node_2'' Vertical 0.5 150
            (Some (PanelL ''B'' ''b'' ''qrc:/B.qml'' 150))
            (Some (PanelL ''C'' ''c'' ''qrc:/C.qml'' 150)))))
   \<and> map_option dm_layoutOf
      (dm_root (snd (dm_loadLayout fallbackConv (dm_saveLayout (dm_ABr 0.7)) dm_init)))
     = Some (SplitL ''node_1'' Vertical 0.7 150
         (Some (PanelL ''A'' ''a'' ''qrc:/A.qml'' 150))
         (Some (PanelL ''B'' ''b'' ''qrc:/B.qml'' 150)))"
  using C3_save_load_round_trip [of fallbackConv stm_ABC stm_init "dm_ABr 0.7" dm_init]
  by (simp add: stm_ABC_def dm_ABr_def dm_inRange_def createPanelNode_def newTreeNode_def
      setParentPtr_def stm_init_def safeSetValue_def qFuzzyCompare_def)

text \<open>
  A container set to 0.7 and then to 0.5000000000001 holds 0.5000000000001: the second
  value is far from 0.7, so \<open>setSplitRatio\<close> stores it. Saved and loaded again, the ratio
  is 0.5: the new container starts at 0.5 and \<open>setSplitRatio\<close> skips a value that
  \<open>qFuzzyCompare\<close> equates with the current one.
\<close>

theorem C3_dm_round_trip_snaps_ratio:
  "dm_updateSplitRatio ''node_1'' 0.7 dm_AB = (True, dm_ABr 0.7)
   \<and> dm_updateSplitRatio ''node_1'' 0.5000000000001 (dm_ABr 0.7)
       = (True, dm_ABr 0.5000000000001)
   \<and> map_option dm_layoutOf (dm_root (dm_ABr 0.5000000000001))
       = Some (SplitL ''node_1'' Vertical 0.5000000000001 150
           (Some (PanelL ''A'' ''a'' ''qrc:/A.qml'' 150))
           (Some (PanelL ''B'' ''b'' ''qrc:/B.qml'' 150)))
   \<and> map_option dm_layoutOf (dm_root (snd (dm_loadLayout fallbackConv
         (dm_saveLayout (dm_ABr 0.5000000000001)) (dm_ABr 0.5000000000001))))
       = Some (SplitL ''node_1'' Vertical 0.5 150
           (Some (PanelL ''A'' ''a'' ''qrc:/A.qml'' 150))
           (Some (PanelL ''B'' ''b'' ''qrc:/B.qml'' 150)))
   \<and> map_option dm_layoutOf (dm_root (snd (dm_loadLayout fallbackConv
         (dm_saveLayout (dm_ABr 0.5000000000001)) (dm_ABr 0.5000000000001))))
       \<noteq> map_option dm_layoutOf (dm_root (dm_ABr 0.5000000000001))"
proof -
  have reloaded:
    "map_option dm_layoutOf (dm_root (snd (dm_loadLayout fallbackConv
         (dm_saveLayout (dm_ABr 0.5000000000001)) (dm_ABr 0.5000000000001))))
       = Some (SplitL ''node_1'' Vertical 0.5 150
           (Some (PanelL ''A'' ''a'' ''qrc:/A.qml'' 150))
           (Some (PanelL ''B'' ''b'' ''qrc:/B.qml'' 150)))"
    using dm_round_trip [of "dm_ABr 0.5000000000001" fallbackConv "dm_ABr 0.5000000000001"]
    by (simp add: dm_ABr_def dm_inRange_def safeSetValue_def qFuzzyCompare_def)
  show ?thesis
    unfolding reloaded
    by (simp add: dm_AB_def dm_ABr_def dm_updateSplitRatio_def store_def
        safeSetValue_def qFuzzyCompare_def validateSplitRatio_nearest)
qed

end
